theory Spec2Isabelle
  imports Main "HOL-Library.Word"
begin

section \<open>The CasADi interface of the optimizer \<^verbatim>\<open>navi_test\<close>\<close>

text \<open>
  A shallow embedding of \<^verbatim>\<open>icasadi_navi_test/extern/interface.c\<close>: the packed workspace
  \<^verbatim>\<open>uxip_space\<close>, the two copy routines and the four dispatch functions that call the
  generated kernels. Memory is an explicit store of separately allocated arrays; every
  access outside an array, through a null pointer or beyond an argument array is undefined
  behaviour in C and is the value \<open>None\<close> here.
\<close>

subsection \<open>Dimensions\<close>

text \<open>The \<^verbatim>\<open>#define\<close>s of lines 30 to 42.\<close>

definition NU_NAVI_TEST :: nat where
  "NU_NAVI_TEST = 40"

definition NP_NAVI_TEST :: nat where
  "NP_NAVI_TEST = 2673"

definition N1_NAVI_TEST :: nat where
  "N1_NAVI_TEST = 40"

definition N2_NAVI_TEST :: nat where
  "N2_NAVI_TEST = 15"

definition NXI_NAVI_TEST :: nat where
  "NXI_NAVI_TEST = 41"


subsection \<open>Values, objects and pointers\<close>

text \<open>
  \<^verbatim>\<open>casadi_real\<close> is \<^verbatim>\<open>double\<close> and \<^verbatim>\<open>casadi_int\<close> is \<^verbatim>\<open>long long int\<close>. This file never
  computes with either, it only copies them, so a value is its 64-bit pattern. The status
  of a kernel is a C \<^verbatim>\<open>int\<close>, a 32-bit pattern that \<open>sint\<close> reads.
\<close>

type_synonym casadi_real = "64 word"
type_synonym casadi_int = "64 word"
type_synonym c_int = "32 word"

datatype kernel_id = Cost | Grad | F1 | F2

text \<open>
  The sizes \<^verbatim>\<open>COST_SZ_ARG_NAVI_TEST\<close>, \<^verbatim>\<open>GRAD_SZ_IW_NAVI_TEST\<close>, ... come from the header
  \<^verbatim>\<open>casadi_memory.h\<close>, which the generator writes for each problem. They are a parameter
  of the model, one number for each kernel and each kind.
\<close>

record casadi_memory =
  sz_arg :: "kernel_id \<Rightarrow> nat"
  sz_res :: "kernel_id \<Rightarrow> nat"
  sz_iw :: "kernel_id \<Rightarrow> nat"
  sz_w :: "kernel_id \<Rightarrow> nat"

text \<open>
  The arrays of reals: the static \<^verbatim>\<open>uxip_space\<close>, the four static real workspaces
  \<^verbatim>\<open>allocated_r_workspace_cost\<close>, ... and the buffers of the caller, numbered. A pointer to
  a real is null or an array with an offset counted in elements.
\<close>

datatype robj = Uxip_space | Allocated_r_workspace kernel_id | Caller nat

datatype rptr = Null | Ptr robj nat

text \<open>
  A \<^verbatim>\<open>casadi_int*\<close> of this file is null or the start of one of the four static integer
  workspaces; a \<^verbatim>\<open>casadi_real**\<close> that this file hands on is null or the start of one of
  the four static result arrays; \<^verbatim>\<open>void* mem\<close> is null or some address.
\<close>

datatype iptr = INull | Allocated_i_workspace kernel_id

datatype pptr = PNull | Result_space kernel_id

datatype vptr = VNull | VPtr nat

record state =
  rheap :: "robj \<Rightarrow> casadi_real list"
  iheap :: "kernel_id \<Rightarrow> casadi_int list"
  pheap :: "kernel_id \<Rightarrow> rptr list"

subsection \<open>Memory access\<close>

fun load :: "state \<Rightarrow> rptr \<Rightarrow> nat \<Rightarrow> casadi_real option" where
  "load s Null i = None"
| "load s (Ptr b off) i =
     (if off + i < length (rheap s b) then Some (rheap s b ! (off + i)) else None)"

fun store :: "state \<Rightarrow> rptr \<Rightarrow> nat \<Rightarrow> casadi_real \<Rightarrow> state option" where
  "store s Null i v = None"
| "store s (Ptr b off) i v =
     (if off + i < length (rheap s b)
      then Some (s\<lparr>rheap := (rheap s)(b := (rheap s b)[off + i := v])\<rparr>)
      else None)"

fun load_p :: "state \<Rightarrow> pptr \<Rightarrow> nat \<Rightarrow> rptr option" where
  "load_p s PNull i = None"
| "load_p s (Result_space k) i =
     (if i < length (pheap s k) then Some (pheap s k ! i) else None)"

fun store_p :: "state \<Rightarrow> pptr \<Rightarrow> nat \<Rightarrow> rptr \<Rightarrow> state option" where
  "store_p s PNull i v = None"
| "store_p s (Result_space k) i v =
     (if i < length (pheap s k)
      then Some (s\<lparr>pheap := (pheap s)(k := (pheap s k)[i := v])\<rparr>)
      else None)"

fun ptr_add :: "rptr \<Rightarrow> nat \<Rightarrow> rptr" where
  "ptr_add Null n = Null"
| "ptr_add (Ptr b off) n = Ptr b (off + n)"

text \<open>\<^verbatim>\<open>arg[k]\<close> and \<^verbatim>\<open>res[k]\<close>: the caller's arrays of pointers, read at an index.\<close>

definition nth_opt :: "'a list \<Rightarrow> nat \<Rightarrow> 'a option" where
  "nth_opt xs k = (if k < length xs then Some (xs ! k) else None)"

text \<open>
  \<^verbatim>\<open>const casadi_real* args__[N] = {...}\<close>: the listed pointers, then null pointers up to
  \<open>N\<close> entries. More initialisers than entries is not a C program.
\<close>

definition array_init :: "nat \<Rightarrow> rptr list \<Rightarrow> rptr list option" where
  "array_init n xs = (if length xs \<le> n then Some (xs @ replicate (n - length xs) Null) else None)"

subsection \<open>The static objects\<close>

definition uxip_space :: rptr where
  "uxip_space = Ptr Uxip_space 0"

text \<open>
  Lines 101 to 181: an array when the declared size is positive, a null pointer
  otherwise.
\<close>

definition allocated_i_workspace :: "casadi_memory \<Rightarrow> kernel_id \<Rightarrow> iptr" where
  "allocated_i_workspace m k = (if sz_iw m k > 0 then Allocated_i_workspace k else INull)"

definition allocated_r_workspace :: "casadi_memory \<Rightarrow> kernel_id \<Rightarrow> rptr" where
  "allocated_r_workspace m k = (if sz_w m k > 0 then Ptr (Allocated_r_workspace k) 0 else Null)"

definition result_space :: "casadi_memory \<Rightarrow> kernel_id \<Rightarrow> pptr" where
  "result_space m k = (if sz_res m k > 0 then Result_space k else PNull)"

text \<open>Static storage starts zeroed; the caller owns nothing yet.\<close>

definition init_state :: "casadi_memory \<Rightarrow> state" where
  "init_state m =
     \<lparr>rheap = (\<lambda>b. case b of
          Uxip_space \<Rightarrow> replicate (NU_NAVI_TEST + NXI_NAVI_TEST + NP_NAVI_TEST) 0
        | Allocated_r_workspace k \<Rightarrow> replicate (sz_w m k) 0
        | Caller n \<Rightarrow> []),
      iheap = (\<lambda>k. replicate (sz_iw m k) 0),
      pheap = (\<lambda>k. replicate (sz_res m k) Null)\<rparr>"

text \<open>The sizes of the static arrays never change.\<close>

definition wf_state :: "casadi_memory \<Rightarrow> state \<Rightarrow> bool" where
  "wf_state m s \<longleftrightarrow>
     length (rheap s Uxip_space) = NU_NAVI_TEST + NXI_NAVI_TEST + NP_NAVI_TEST \<and>
     list_all (\<lambda>k. length (rheap s (Allocated_r_workspace k)) = sz_w m k \<and>
                   length (iheap s k) = sz_iw m k \<and>
                   length (pheap s k) = sz_res m k) [Cost, Grad, F1, F2]"

subsection \<open>The copy routines\<close>

text \<open>
  One loop \<^verbatim>\<open>for (i=0; i<n; i++) uxip_space[off+i] = arg[k][i];\<close>, from the value \<open>i\<close> of
  the counter on.
\<close>

function copy_loop :: "rptr list \<Rightarrow> nat \<Rightarrow> nat \<Rightarrow> nat \<Rightarrow> nat \<Rightarrow> state \<Rightarrow> state option" where
  "copy_loop arg k off n i s =
     (if i < n then
        (case nth_opt arg k of
           None \<Rightarrow> None
         | Some src \<Rightarrow>
            (case load s src i of
               None \<Rightarrow> None
             | Some v \<Rightarrow>
                (case store s uxip_space (off + i) v of
                   None \<Rightarrow> None
                 | Some s' \<Rightarrow> copy_loop arg k off n (i + 1) s')))
      else Some s)"
  by pat_completeness auto
termination
  by (relation "measure (\<lambda>(arg, k, off, n, i, s). n - i)") auto

declare copy_loop.simps [simp del]

definition copy_args_into_uxip_space :: "rptr list \<Rightarrow> state \<Rightarrow> state option" where
  "copy_args_into_uxip_space arg s =
     (case copy_loop arg 0 0 NU_NAVI_TEST 0 s of
        None \<Rightarrow> None
      | Some s1 \<Rightarrow>
         (case copy_loop arg 1 NU_NAVI_TEST NXI_NAVI_TEST 0 s1 of
            None \<Rightarrow> None
          | Some s2 \<Rightarrow> copy_loop arg 2 (NU_NAVI_TEST + NXI_NAVI_TEST) NP_NAVI_TEST 0 s2))"

definition copy_args_into_up_space :: "rptr list \<Rightarrow> state \<Rightarrow> state option" where
  "copy_args_into_up_space arg s =
     (case copy_loop arg 0 0 NU_NAVI_TEST 0 s of
        None \<Rightarrow> None
      | Some s1 \<Rightarrow> copy_loop arg 1 (NU_NAVI_TEST + NXI_NAVI_TEST) NP_NAVI_TEST 0 s1)"

subsection \<open>The dispatch functions\<close>

text \<open>
  The kernels \<^verbatim>\<open>open_phi_navi_test\<close>, ... are \<^verbatim>\<open>extern\<close>: each dispatch function takes
  its kernel as a parameter. A kernel gets the array \<^verbatim>\<open>args__\<close> (a local of the caller,
  passed here by value), the result array, the two workspaces and \<^verbatim>\<open>mem\<close>, and returns a
  status and a new store, or has no defined behaviour.
\<close>

type_synonym kernel =
  "rptr list \<Rightarrow> pptr \<Rightarrow> iptr \<Rightarrow> rptr \<Rightarrow> vptr \<Rightarrow> state \<Rightarrow> (c_int \<times> state) option"

definition cost_function_navi_test ::
  "casadi_memory \<Rightarrow> kernel \<Rightarrow> rptr list \<Rightarrow> rptr list \<Rightarrow> state \<Rightarrow> (c_int \<times> state) option" where
  "cost_function_navi_test m open_phi_navi_test arg res s =
     (case array_init (sz_arg m Cost)
             [uxip_space,
              ptr_add uxip_space NU_NAVI_TEST,
              ptr_add (ptr_add uxip_space NU_NAVI_TEST) NXI_NAVI_TEST] of
        None \<Rightarrow> None
      | Some args__ \<Rightarrow>
         (case copy_args_into_uxip_space arg s of
            None \<Rightarrow> None
          | Some s1 \<Rightarrow>
             (case nth_opt res 0 of
                None \<Rightarrow> None
              | Some r0 \<Rightarrow>
                 (case store_p s1 (result_space m Cost) 0 r0 of
                    None \<Rightarrow> None
                  | Some s2 \<Rightarrow>
                     open_phi_navi_test args__ (result_space m Cost)
                       (allocated_i_workspace m Cost) (allocated_r_workspace m Cost) VNull s2))))"

definition grad_cost_function_navi_test ::
  "casadi_memory \<Rightarrow> kernel \<Rightarrow> rptr list \<Rightarrow> rptr list \<Rightarrow> state \<Rightarrow> (c_int \<times> state) option" where
  "grad_cost_function_navi_test m open_grad_phi_navi_test arg res s =
     (case array_init (sz_arg m Grad)
             [uxip_space,
              ptr_add uxip_space NU_NAVI_TEST,
              ptr_add (ptr_add uxip_space NU_NAVI_TEST) NXI_NAVI_TEST] of
        None \<Rightarrow> None
      | Some args__ \<Rightarrow>
         (case copy_args_into_uxip_space arg s of
            None \<Rightarrow> None
          | Some s1 \<Rightarrow>
             (case nth_opt res 0 of
                None \<Rightarrow> None
              | Some r0 \<Rightarrow>
                 (case store_p s1 (result_space m Grad) 0 r0 of
                    None \<Rightarrow> None
                  | Some s2 \<Rightarrow>
                     open_grad_phi_navi_test args__ (result_space m Grad)
                       (allocated_i_workspace m Grad) (allocated_r_workspace m Grad) VNull s2))))"

definition mapping_f1_function_navi_test ::
  "casadi_memory \<Rightarrow> kernel \<Rightarrow> rptr list \<Rightarrow> rptr list \<Rightarrow> state \<Rightarrow> (c_int \<times> state) option" where
  "mapping_f1_function_navi_test m open_mapping_f1_navi_test arg res s =
     (case array_init (sz_arg m F1)
             [uxip_space,
              ptr_add (ptr_add uxip_space NU_NAVI_TEST) NXI_NAVI_TEST] of
        None \<Rightarrow> None
      | Some args__ \<Rightarrow>
         (case copy_args_into_up_space arg s of
            None \<Rightarrow> None
          | Some s1 \<Rightarrow>
             (case nth_opt res 0 of
                None \<Rightarrow> None
              | Some r0 \<Rightarrow>
                 (case store_p s1 (result_space m F1) 0 r0 of
                    None \<Rightarrow> None
                  | Some s2 \<Rightarrow>
                     open_mapping_f1_navi_test args__ (result_space m F1)
                       (allocated_i_workspace m F1) (allocated_r_workspace m F1) VNull s2))))"

definition mapping_f2_function_navi_test ::
  "casadi_memory \<Rightarrow> kernel \<Rightarrow> rptr list \<Rightarrow> rptr list \<Rightarrow> state \<Rightarrow> (c_int \<times> state) option" where
  "mapping_f2_function_navi_test m open_mapping_f2_navi_test arg res s =
     (case array_init (sz_arg m F2)
             [uxip_space,
              ptr_add (ptr_add uxip_space NU_NAVI_TEST) NXI_NAVI_TEST] of
        None \<Rightarrow> None
      | Some args__ \<Rightarrow>
         (case copy_args_into_up_space arg s of
            None \<Rightarrow> None
          | Some s1 \<Rightarrow>
             (case nth_opt res 0 of
                None \<Rightarrow> None
              | Some r0 \<Rightarrow>
                 (case store_p s1 (result_space m F2) 0 r0 of
                    None \<Rightarrow> None
                  | Some s2 \<Rightarrow>
                     open_mapping_f2_navi_test args__ (result_space m F2)
                       (allocated_i_workspace m F2) (allocated_r_workspace m F2) VNull s2))))"

subsection \<open>Vectors in memory\<close>

text \<open>The \<open>n\<close> reals that start at a pointer.\<close>

fun read_vec :: "state \<Rightarrow> rptr \<Rightarrow> nat \<Rightarrow> casadi_real list option" where
  "read_vec s Null n = None"
| "read_vec s (Ptr b off) n =
     (if off + n \<le> length (rheap s b) then Some (take n (drop off (rheap s b))) else None)"

text \<open>
  An input vector of \<open>n\<close> reals: a pointer to \<open>n\<close> readable elements of an array other than
  \<^verbatim>\<open>uxip_space\<close>, which is \<^verbatim>\<open>static\<close> and has no name outside this file.
\<close>

fun input_vec :: "state \<Rightarrow> rptr \<Rightarrow> nat \<Rightarrow> bool" where
  "input_vec s Null n = False"
| "input_vec s (Ptr b off) n = (b \<noteq> Uxip_space \<and> off + n \<le> length (rheap s b))"

subsection \<open>The call of the kernel\<close>

text \<open>
  The four dispatch functions, chosen by the kernel they serve.
\<close>

fun dispatch ::
  "casadi_memory \<Rightarrow> kernel_id \<Rightarrow> kernel \<Rightarrow> rptr list \<Rightarrow> rptr list \<Rightarrow> state \<Rightarrow> (c_int \<times> state) option" where
  "dispatch m Cost = cost_function_navi_test m"
| "dispatch m Grad = grad_cost_function_navi_test m"
| "dispatch m F1 = mapping_f1_function_navi_test m"
| "dispatch m F2 = mapping_f2_function_navi_test m"

text \<open>
  What a kernel is called with: the five actual parameters and the store at the moment of
  the call.
\<close>

record kernel_call =
  c_arg :: "rptr list"
  c_res :: pptr
  c_iw :: iptr
  c_w :: rptr
  c_mem :: vptr
  c_state :: state

definition invoke :: "kernel \<Rightarrow> kernel_call \<Rightarrow> (c_int \<times> state) option" where
  "invoke K c = K (c_arg c) (c_res c) (c_iw c) (c_w c) (c_mem c) (c_state c)"

fun full_pack :: "kernel_id \<Rightarrow> bool" where
  "full_pack Cost = True"
| "full_pack Grad = True"
| "full_pack F1 = False"
| "full_pack F2 = False"

text \<open>
  The statements of the dispatch function of kernel \<open>k\<close> up to the call of its kernel.
  Lemma \<open>dispatch_kernel_call\<close> below shows, for every kernel, that each dispatch function
  is this prefix followed by the call.
\<close>

definition kernel_call ::
  "casadi_memory \<Rightarrow> kernel_id \<Rightarrow> rptr list \<Rightarrow> rptr list \<Rightarrow> state \<Rightarrow> kernel_call option" where
  "kernel_call m k arg res s =
     (case array_init (sz_arg m k)
             (if full_pack k
              then [uxip_space,
                    ptr_add uxip_space NU_NAVI_TEST,
                    ptr_add (ptr_add uxip_space NU_NAVI_TEST) NXI_NAVI_TEST]
              else [uxip_space,
                    ptr_add (ptr_add uxip_space NU_NAVI_TEST) NXI_NAVI_TEST]) of
        None \<Rightarrow> None
      | Some args__ \<Rightarrow>
         (case (if full_pack k then copy_args_into_uxip_space arg s
                else copy_args_into_up_space arg s) of
            None \<Rightarrow> None
          | Some s1 \<Rightarrow>
             (case nth_opt res 0 of
                None \<Rightarrow> None
              | Some r0 \<Rightarrow>
                 (case store_p s1 (result_space m k) 0 r0 of
                    None \<Rightarrow> None
                  | Some s2 \<Rightarrow>
                     Some \<lparr>c_arg = args__, c_res = result_space m k,
                           c_iw = allocated_i_workspace m k, c_w = allocated_r_workspace m k,
                           c_mem = VNull, c_state = s2\<rparr>))))"

subsection \<open>The generated kernels\<close>

text \<open>
  Modelled from the spec: the kernels \<^verbatim>\<open>open_phi_navi_test\<close>, \<^verbatim>\<open>open_grad_phi_navi_test\<close>,
  \<^verbatim>\<open>open_mapping_f1_navi_test\<close> and \<^verbatim>\<open>open_mapping_f2_navi_test\<close> (the files
  \<^verbatim>\<open>auto_casadi_*.c\<close>) are missing. The spec describes a kernel as an opaque numerical
  function with a fixed call signature (argument views, result slots, integer scratch,
  real scratch, auxiliary handle) that reads only the regions it is declared to need,
  writes its output through the result slot into the caller's buffer, uses its scratch
  arenas for internal computation and returns an integer status. So a kernel is given by
  the lengths of its declared inputs and by a function from the input vectors and the
  contents of its own two scratch arenas to the status, the output vector and the new
  contents of the arenas.
\<close>

record kernel_fn =
  k_in :: "nat list"
  k_eval :: "casadi_real list list \<Rightarrow> casadi_int list \<Rightarrow> casadi_real list \<Rightarrow>
             c_int \<times> casadi_real list \<times> casadi_int list \<times> casadi_real list"

fun read_inputs :: "state \<Rightarrow> rptr list \<Rightarrow> nat list \<Rightarrow> casadi_real list list option" where
  "read_inputs s arg [] = Some []"
| "read_inputs s [] (n # ns) = None"
| "read_inputs s (a # arg) (n # ns) =
     (case read_vec s a n of
        None \<Rightarrow> None
      | Some v \<Rightarrow>
         (case read_inputs s arg ns of
            None \<Rightarrow> None
          | Some vs \<Rightarrow> Some (v # vs)))"

fun write_vec :: "state \<Rightarrow> rptr \<Rightarrow> casadi_real list \<Rightarrow> state option" where
  "write_vec s Null xs = (if xs = [] then Some s else None)"
| "write_vec s (Ptr b off) xs =
     (if off + length xs \<le> length (rheap s b)
      then Some (s\<lparr>rheap := (rheap s)(b :=
                   take off (rheap s b) @ xs @ drop (off + length xs) (rheap s b))\<rparr>)
      else None)"

fun read_iw :: "state \<Rightarrow> iptr \<Rightarrow> casadi_int list" where
  "read_iw s INull = []"
| "read_iw s (Allocated_i_workspace k) = iheap s k"

fun write_iw :: "state \<Rightarrow> iptr \<Rightarrow> casadi_int list \<Rightarrow> state option" where
  "write_iw s INull xs = (if xs = [] then Some s else None)"
| "write_iw s (Allocated_i_workspace k) xs =
     (if length xs = length (iheap s k) then Some (s\<lparr>iheap := (iheap s)(k := xs)\<rparr>) else None)"

fun read_w :: "state \<Rightarrow> rptr \<Rightarrow> casadi_real list" where
  "read_w s Null = []"
| "read_w s (Ptr b off) = drop off (rheap s b)"

fun write_w :: "state \<Rightarrow> rptr \<Rightarrow> casadi_real list \<Rightarrow> state option" where
  "write_w s Null xs = (if xs = [] then Some s else None)"
| "write_w s (Ptr b off) xs =
     (if off + length xs = length (rheap s b) then write_vec s (Ptr b off) xs else None)"

text \<open>
  Modelled from the spec: the call of a generated kernel, whose code is missing. It reads
  its declared inputs through the argument view and its output pointer from entry 0 of the
  result array, evaluates, writes the new contents of its two scratch arenas, and writes
  its output through the output pointer.
\<close>

definition casadi_kernel :: "kernel_fn \<Rightarrow> kernel" where
  "casadi_kernel f arg res iw w mem s =
     (case read_inputs s arg (k_in f) of
        None \<Rightarrow> None
      | Some ins \<Rightarrow>
         (case load_p s res 0 of
            None \<Rightarrow> None
          | Some out \<Rightarrow>
             (case k_eval f ins (read_iw s iw) (read_w s w) of
                (c, y, iw', w') \<Rightarrow>
                  (case write_iw s iw iw' of
                     None \<Rightarrow> None
                   | Some s1 \<Rightarrow>
                      (case write_w s1 w w' of
                         None \<Rightarrow> None
                       | Some s2 \<Rightarrow>
                          (case write_vec s2 out y of
                             None \<Rightarrow> None
                           | Some s3 \<Rightarrow> Some (c, s3)))))))"


subsection \<open>The state machine of the spec\<close>

text \<open>
  The spec gives each dispatch function as a single-shot machine
  Idle, Packing, ViewBinding, ResultBinding, Invoking, Done. The definitions of this
  subsection follow the words of the spec, transition by transition, and are compared with
  the functions of the source.
\<close>

datatype phase = Idle | Packing | ViewBinding | ResultBinding | Invoking | Done

record config =
  phase :: phase
  store_of :: state
  view :: "rptr list"
  status :: c_int

definition spec_view :: "kernel_id \<Rightarrow> rptr list" where
  "spec_view k =
     (if full_pack k
      then [Ptr Uxip_space 0, Ptr Uxip_space NU_NAVI_TEST,
            Ptr Uxip_space (NU_NAVI_TEST + NXI_NAVI_TEST)]
      else [Ptr Uxip_space 0, Ptr Uxip_space (NU_NAVI_TEST + NXI_NAVI_TEST)])"

definition spec_step ::
  "casadi_memory \<Rightarrow> kernel_id \<Rightarrow> kernel \<Rightarrow> rptr list \<Rightarrow> rptr list \<Rightarrow> config \<Rightarrow> config option" where
  "spec_step m k K arg res c =
     (case phase c of
        Idle \<Rightarrow>
          (case (if full_pack k then copy_args_into_uxip_space arg (store_of c)
                 else copy_args_into_up_space arg (store_of c)) of
             None \<Rightarrow> None
           | Some s' \<Rightarrow> Some (c\<lparr>phase := Packing, store_of := s'\<rparr>))
      | Packing \<Rightarrow>
          (case array_init (sz_arg m k) (spec_view k) of
             None \<Rightarrow> None
           | Some v \<Rightarrow> Some (c\<lparr>phase := ViewBinding, view := v\<rparr>))
      | ViewBinding \<Rightarrow>
          (case nth_opt res 0 of
             None \<Rightarrow> None
           | Some r0 \<Rightarrow>
              (case store_p (store_of c) (result_space m k) 0 r0 of
                 None \<Rightarrow> None
               | Some s' \<Rightarrow> Some (c\<lparr>phase := ResultBinding, store_of := s'\<rparr>)))
      | ResultBinding \<Rightarrow>
          (case K (view c) (result_space m k) (allocated_i_workspace m k)
                  (allocated_r_workspace m k) VNull (store_of c) of
             None \<Rightarrow> None
           | Some (st, s') \<Rightarrow> Some (c\<lparr>phase := Invoking, store_of := s', status := st\<rparr>))
      | Invoking \<Rightarrow> Some (c\<lparr>phase := Done\<rparr>)
      | Done \<Rightarrow> None)"

fun spec_steps ::
  "nat \<Rightarrow> casadi_memory \<Rightarrow> kernel_id \<Rightarrow> kernel \<Rightarrow> rptr list \<Rightarrow> rptr list \<Rightarrow> config \<Rightarrow> config option" where
  "spec_steps 0 m k K arg res c = Some c"
| "spec_steps (Suc n) m k K arg res c =
     (case spec_step m k K arg res c of
        None \<Rightarrow> None
      | Some c' \<Rightarrow> spec_steps n m k K arg res c')"


subsection \<open>Valid calls\<close>

text \<open>
  The caller passes its own buffers: a pointer of the caller is null or points into one of
  the caller's arrays, and a vector of the caller of \<open>n\<close> reals is \<open>n\<close> readable elements of
  one of them.
\<close>

fun caller_ptr :: "rptr \<Rightarrow> bool" where
  "caller_ptr Null = True"
| "caller_ptr (Ptr (Caller n) off) = True"
| "caller_ptr (Ptr Uxip_space off) = False"
| "caller_ptr (Ptr (Allocated_r_workspace k) off) = False"

fun caller_vec :: "state \<Rightarrow> rptr \<Rightarrow> nat \<Rightarrow> bool" where
  "caller_vec s (Ptr (Caller n) off) len = (off + len \<le> length (rheap s (Caller n)))"
| "caller_vec s (Ptr Uxip_space off) len = False"
| "caller_vec s (Ptr (Allocated_r_workspace k) off) len = False"
| "caller_vec s Null len = False"

fun vec_of :: "state \<Rightarrow> rptr \<Rightarrow> nat \<Rightarrow> casadi_real list" where
  "vec_of s Null n = []"
| "vec_of s (Ptr b off) n = take n (drop off (rheap s b))"

text \<open>
  A valid call of the dispatch function of kernel \<open>k\<close>: the static arrays have their
  declared sizes, \<^verbatim>\<open>args__\<close> has room for its initialisers, the result array has an entry,
  \<open>arg\<close> holds the input vectors of the caller (\<open>u\<close>, \<open>xi\<close>, \<open>p\<close> for the cost and the gradient,
  \<open>u\<close>, \<open>p\<close> for the mappings) and \<open>res\<close> holds a pointer into a buffer of the caller.
\<close>

definition valid_call ::
  "casadi_memory \<Rightarrow> kernel_id \<Rightarrow> rptr list \<Rightarrow> rptr list \<Rightarrow> state \<Rightarrow> bool" where
  "valid_call m k arg res s \<longleftrightarrow>
     wf_state m s \<and> 0 < sz_res m k \<and>
     (if full_pack k
      then 3 \<le> sz_arg m k \<and> length arg = 3 \<and> caller_vec s (arg ! 0) NU_NAVI_TEST \<and>
           caller_vec s (arg ! 1) NXI_NAVI_TEST \<and> caller_vec s (arg ! 2) NP_NAVI_TEST
      else 2 \<le> sz_arg m k \<and> length arg = 2 \<and> caller_vec s (arg ! 0) NU_NAVI_TEST \<and>
           caller_vec s (arg ! 1) NP_NAVI_TEST) \<and>
     length res = 1 \<and> caller_ptr (res ! 0) \<and> res ! 0 \<noteq> Null"

text \<open>What a valid call packs into \<^verbatim>\<open>uxip_space\<close>, and the view it builds.\<close>

definition packed :: "kernel_id \<Rightarrow> rptr list \<Rightarrow> state \<Rightarrow> casadi_real list" where
  "packed k arg s =
     (if full_pack k
      then vec_of s (arg ! 0) NU_NAVI_TEST @ vec_of s (arg ! 1) NXI_NAVI_TEST
           @ vec_of s (arg ! 2) NP_NAVI_TEST
      else vec_of s (arg ! 0) NU_NAVI_TEST
           @ take NXI_NAVI_TEST (drop NU_NAVI_TEST (rheap s Uxip_space))
           @ vec_of s (arg ! 1) NP_NAVI_TEST)"

definition view_of :: "casadi_memory \<Rightarrow> kernel_id \<Rightarrow> rptr list" where
  "view_of m k = spec_view k @ replicate (sz_arg m k - length (spec_view k)) Null"

text \<open>
  A pointer into a given array, two pointers into one array, and the input vectors of a
  call as values.
\<close>

fun points_into :: "rptr \<Rightarrow> robj \<Rightarrow> bool" where
  "points_into Null b = False"
| "points_into (Ptr a off) b = (a = b)"



subsection \<open>A sample configuration\<close>

text \<open>
  Concrete sizes, a concrete store with five buffers of the caller and concrete kernels, at
  which the theorems below are instantiated.
\<close>

definition ex_memory :: casadi_memory where
  "ex_memory =
     \<lparr>sz_arg = (\<lambda>k. if full_pack k then 3 else 2), sz_res = (\<lambda>k. 1),
      sz_iw = (\<lambda>k. 0), sz_w = (\<lambda>k. 2)\<rparr>"

definition ex_state :: state where
  "ex_state =
     (init_state ex_memory)\<lparr>rheap := (rheap (init_state ex_memory))
        (Caller 0 := replicate 40 1, Caller 1 := replicate 41 2, Caller 2 := replicate 2673 3,
         Caller 3 := replicate 40 0, Caller 4 := replicate 40 0)\<rparr>"

definition ex_arg :: "rptr list" where
  "ex_arg = [Ptr (Caller 0) 0, Ptr (Caller 1) 0, Ptr (Caller 2) 0]"

definition ex_arg_up :: "rptr list" where
  "ex_arg_up = [Ptr (Caller 0) 0, Ptr (Caller 2) 0]"

definition ex_res :: "rptr list" where
  "ex_res = [Ptr (Caller 3) 0]"


text \<open>
  A kernel of three inputs, which writes the first element of \<open>u\<close> plus one and returns the
  status 7, and a kernel of two inputs, which writes the first element of \<open>u\<close> and returns 0.
\<close>

definition ex_kernel :: kernel_fn where
  "ex_kernel = \<lparr>k_in = [40, 41, 2673], k_eval = (\<lambda>ins iw w. (7, [hd (hd ins) + 1], iw, w))\<rparr>"

definition ex_kernel_up :: kernel_fn where
  "ex_kernel_up = \<lparr>k_in = [40, 2673], k_eval = (\<lambda>ins iw w. (0, [hd (hd ins)], iw, w))\<rparr>"

text \<open>A kernel that does nothing but return the status 7.\<close>

definition ex_status_kernel :: kernel where
  "ex_status_kernel arg res iw w mem s = Some (7, s)"





section \<open>Properties\<close>

subsection \<open>The copy loop in closed form\<close>

text \<open>
  A loop that reads from an array other than \<^verbatim>\<open>uxip_space\<close> replaces the elements
  \<open>off + i\<close> to \<open>off + n - 1\<close> of \<^verbatim>\<open>uxip_space\<close> by the elements \<open>i\<close> to \<open>n - 1\<close> of its
  source and changes nothing else.
\<close>

lemma copy_loop_closed:
  assumes "nth_opt arg k = Some (Ptr b p)" and "b \<noteq> Uxip_space"
    and "p + n \<le> length (rheap s b)" and "off + n \<le> length (rheap s Uxip_space)" and "i \<le> n"
  shows "copy_loop arg k off n i s =
         Some (s\<lparr>rheap := (rheap s)(Uxip_space :=
                 take (off + i) (rheap s Uxip_space)
                 @ take (n - i) (drop (p + i) (rheap s b))
                 @ drop (off + n) (rheap s Uxip_space))\<rparr>)"
  using assms
proof (induction "n - i" arbitrary: i s)
  case 0
  then have "i = n" by simp
  then show ?case by (simp add: copy_loop.simps)
next
  case (Suc d)
  let ?W = "rheap s Uxip_space" and ?B = "rheap s b"
  let ?v = "?B ! (p + i)"
  let ?s' = "s\<lparr>rheap := (rheap s)(Uxip_space := ?W[off + i := ?v])\<rparr>"
  from Suc.hyps(2) have lt: "i < n" by simp
  have ld: "load s (Ptr b p) i = Some ?v" using lt Suc.prems by simp
  have st: "store s uxip_space (off + i) ?v = Some ?s'"
    using lt Suc.prems by (simp add: uxip_space_def)
  have step: "copy_loop arg k off n i s = copy_loop arg k off n (i + 1) ?s'"
    using lt ld st Suc.prems(1) by (subst copy_loop.simps) simp
  have IH: "copy_loop arg k off n (i + 1) ?s' =
         Some (?s'\<lparr>rheap := (rheap ?s')(Uxip_space :=
                 take (off + (i + 1)) (rheap ?s' Uxip_space)
                 @ take (n - (i + 1)) (drop (p + (i + 1)) (rheap ?s' b))
                 @ drop (off + n) (rheap ?s' Uxip_space))\<rparr>)"
    using Suc.hyps Suc.prems lt by (intro Suc.hyps(1)) auto
  have a: "take (Suc (off + i)) (?W[off + i := ?v]) = take (off + i) ?W @ [?v]"
    using lt Suc.prems(4) by (simp add: take_Suc_conv_app_nth)
  have b: "drop (off + n) (?W[off + i := ?v]) = drop (off + n) ?W"
    using lt by simp
  have c: "take (n - i) (drop (p + i) ?B) = ?v # take (n - (i + 1)) (drop (p + (i + 1)) ?B)"
  proof -
    have "p + i < length ?B" using lt Suc.prems(3) by simp
    then have "drop (p + i) ?B = ?v # drop (Suc (p + i)) ?B" by (simp add: Cons_nth_drop_Suc)
    moreover have "n - i = Suc (n - (i + 1))" using lt by simp
    ultimately show ?thesis by simp
  qed
  show ?case
    unfolding step IH using Suc.prems(2) by (simp add: a b c)
qed

lemma uxip_closed:
  assumes a0: "nth_opt arg 0 = Some (Ptr bu pu)" and a1: "nth_opt arg 1 = Some (Ptr bx px)"
    and a2: "nth_opt arg 2 = Some (Ptr bp pp)"
    and nu: "bu \<noteq> Uxip_space" "pu + NU_NAVI_TEST \<le> length (rheap s bu)"
    and nx: "bx \<noteq> Uxip_space" "px + NXI_NAVI_TEST \<le> length (rheap s bx)"
    and np: "bp \<noteq> Uxip_space" "pp + NP_NAVI_TEST \<le> length (rheap s bp)"
    and len: "length (rheap s Uxip_space) = NU_NAVI_TEST + NXI_NAVI_TEST + NP_NAVI_TEST"
  shows "copy_args_into_uxip_space arg s =
         Some (s\<lparr>rheap := (rheap s)(Uxip_space :=
                 take NU_NAVI_TEST (drop pu (rheap s bu))
                 @ take NXI_NAVI_TEST (drop px (rheap s bx))
                 @ take NP_NAVI_TEST (drop pp (rheap s bp)))\<rparr>)"
proof -
  let ?W = "rheap s Uxip_space"
  let ?U = "take NU_NAVI_TEST (drop pu (rheap s bu))"
  let ?X = "take NXI_NAVI_TEST (drop px (rheap s bx))"
  let ?P = "take NP_NAVI_TEST (drop pp (rheap s bp))"
  have lU: "length ?U = NU_NAVI_TEST" using nu by simp
  have lX: "length ?X = NXI_NAVI_TEST" using nx by simp
  let ?s1 = "s\<lparr>rheap := (rheap s)(Uxip_space := ?U @ drop NU_NAVI_TEST ?W)\<rparr>"
  let ?s2 = "s\<lparr>rheap := (rheap s)(Uxip_space := ?U @ ?X @ drop (NU_NAVI_TEST + NXI_NAVI_TEST) ?W)\<rparr>"
  have "copy_loop arg 0 0 NU_NAVI_TEST 0 s =
        Some (s\<lparr>rheap := (rheap s)(Uxip_space :=
                 take (0 + 0) (rheap s Uxip_space)
                 @ take (NU_NAVI_TEST - 0) (drop (pu + 0) (rheap s bu))
                 @ drop (0 + NU_NAVI_TEST) (rheap s Uxip_space))\<rparr>)"
    by (rule copy_loop_closed[OF a0 nu(1)]) (use nu len in simp_all)
  then have 1: "copy_loop arg 0 0 NU_NAVI_TEST 0 s = Some ?s1"
    by simp
  have "copy_loop arg (Suc 0) NU_NAVI_TEST NXI_NAVI_TEST 0 ?s1 =
        Some (?s1\<lparr>rheap := (rheap ?s1)(Uxip_space :=
                 take (NU_NAVI_TEST + 0) (rheap ?s1 Uxip_space)
                 @ take (NXI_NAVI_TEST - 0) (drop (px + 0) (rheap ?s1 bx))
                 @ drop (NU_NAVI_TEST + NXI_NAVI_TEST) (rheap ?s1 Uxip_space))\<rparr>)"
    by (rule copy_loop_closed[OF a1[unfolded One_nat_def] nx(1)]) (use nx len lU in simp_all)
  then have 2: "copy_loop arg (Suc 0) NU_NAVI_TEST NXI_NAVI_TEST 0 ?s1 = Some ?s2"
    using nx(1) lU by (simp add: add.commute)
  have "copy_loop arg 2 (NU_NAVI_TEST + NXI_NAVI_TEST) NP_NAVI_TEST 0 ?s2 =
        Some (?s2\<lparr>rheap := (rheap ?s2)(Uxip_space :=
                 take (NU_NAVI_TEST + NXI_NAVI_TEST + 0) (rheap ?s2 Uxip_space)
                 @ take (NP_NAVI_TEST - 0) (drop (pp + 0) (rheap ?s2 bp))
                 @ drop (NU_NAVI_TEST + NXI_NAVI_TEST + NP_NAVI_TEST) (rheap ?s2 Uxip_space))\<rparr>)"
    by (rule copy_loop_closed[OF a2 np(1)]) (use np len lU lX in simp_all)
  then have 3: "copy_loop arg 2 (NU_NAVI_TEST + NXI_NAVI_TEST) NP_NAVI_TEST 0 ?s2 =
           Some (s\<lparr>rheap := (rheap s)(Uxip_space := ?U @ ?X @ ?P)\<rparr>)"
    using np(1) lU lX len by simp
  show ?thesis
    by (simp add: copy_args_into_uxip_space_def 1 2 3)
qed

lemma up_closed:
  assumes a0: "nth_opt arg 0 = Some (Ptr bu pu)" and a1: "nth_opt arg 1 = Some (Ptr bp pp)"
    and nu: "bu \<noteq> Uxip_space" "pu + NU_NAVI_TEST \<le> length (rheap s bu)"
    and np: "bp \<noteq> Uxip_space" "pp + NP_NAVI_TEST \<le> length (rheap s bp)"
    and len: "length (rheap s Uxip_space) = NU_NAVI_TEST + NXI_NAVI_TEST + NP_NAVI_TEST"
  shows "copy_args_into_up_space arg s =
         Some (s\<lparr>rheap := (rheap s)(Uxip_space :=
                 take NU_NAVI_TEST (drop pu (rheap s bu))
                 @ take NXI_NAVI_TEST (drop NU_NAVI_TEST (rheap s Uxip_space))
                 @ take NP_NAVI_TEST (drop pp (rheap s bp)))\<rparr>)"
proof -
  let ?W = "rheap s Uxip_space"
  let ?U = "take NU_NAVI_TEST (drop pu (rheap s bu))"
  let ?X = "take NXI_NAVI_TEST (drop NU_NAVI_TEST ?W)"
  let ?P = "take NP_NAVI_TEST (drop pp (rheap s bp))"
  have lU: "length ?U = NU_NAVI_TEST" using nu by simp
  let ?s1 = "s\<lparr>rheap := (rheap s)(Uxip_space := ?U @ drop NU_NAVI_TEST ?W)\<rparr>"
  have "copy_loop arg 0 0 NU_NAVI_TEST 0 s =
        Some (s\<lparr>rheap := (rheap s)(Uxip_space :=
                 take (0 + 0) (rheap s Uxip_space)
                 @ take (NU_NAVI_TEST - 0) (drop (pu + 0) (rheap s bu))
                 @ drop (0 + NU_NAVI_TEST) (rheap s Uxip_space))\<rparr>)"
    by (rule copy_loop_closed[OF a0 nu(1)]) (use nu len in simp_all)
  then have 1: "copy_loop arg 0 0 NU_NAVI_TEST 0 s = Some ?s1"
    by simp
  have "copy_loop arg (Suc 0) (NU_NAVI_TEST + NXI_NAVI_TEST) NP_NAVI_TEST 0 ?s1 =
        Some (?s1\<lparr>rheap := (rheap ?s1)(Uxip_space :=
                 take (NU_NAVI_TEST + NXI_NAVI_TEST + 0) (rheap ?s1 Uxip_space)
                 @ take (NP_NAVI_TEST - 0) (drop (pp + 0) (rheap ?s1 bp))
                 @ drop (NU_NAVI_TEST + NXI_NAVI_TEST + NP_NAVI_TEST) (rheap ?s1 Uxip_space))\<rparr>)"
    by (rule copy_loop_closed[OF a1[unfolded One_nat_def] np(1)]) (use np len lU in simp_all)
  then have 2: "copy_loop arg (Suc 0) (NU_NAVI_TEST + NXI_NAVI_TEST) NP_NAVI_TEST 0 ?s1 =
           Some (s\<lparr>rheap := (rheap s)(Uxip_space := ?U @ ?X @ ?P)\<rparr>)"
    using np(1) lU len by simp
  show ?thesis
    by (simp add: copy_args_into_up_space_def 1 2)
qed

lemma input_vec_read:
  "input_vec s q n \<Longrightarrow> read_vec s q n = Some v \<Longrightarrow>
   \<exists>b off. q = Ptr b off \<and> b \<noteq> Uxip_space \<and> off + n \<le> length (rheap s b) \<and>
           v = take n (drop off (rheap s b)) \<and> length v = n"
  by (cases q) (auto split: if_splits)

subsection \<open>The full pack\<close>

text \<open>
  Claim C1. For input vectors \<open>u\<close>, \<open>xi\<close>, \<open>p\<close> of \<open>Nu = 40\<close>, \<open>Nxi = 41\<close> and \<open>Np = 2673\<close>
  reals, \<^verbatim>\<open>copy_args_into_uxip_space({u, xi, p})\<close> returns, and the store after it is the
  store before it with the contents of \<^verbatim>\<open>uxip_space\<close> replaced by \<open>u @ xi @ p\<close>: the slice
  \<open>[0, Nu)\<close> is \<open>u\<close>, the slice \<open>[Nu, Nu + Nxi)\<close> is \<open>xi\<close>, the slice
  \<open>[Nu + Nxi, Nu + Nxi + Np)\<close> is \<open>p\<close>, and nothing else is written.
\<close>

theorem copy_args_into_uxip_space_packs:
  assumes "input_vec s pu NU_NAVI_TEST" and "read_vec s pu NU_NAVI_TEST = Some u"
    and "input_vec s pxi NXI_NAVI_TEST" and "read_vec s pxi NXI_NAVI_TEST = Some xi"
    and "input_vec s pp NP_NAVI_TEST" and "read_vec s pp NP_NAVI_TEST = Some p"
    and "length (rheap s Uxip_space) = NU_NAVI_TEST + NXI_NAVI_TEST + NP_NAVI_TEST"
  shows "\<exists>s'. copy_args_into_uxip_space [pu, pxi, pp] s = Some s' \<and>
           s' = s\<lparr>rheap := (rheap s)(Uxip_space := u @ xi @ p)\<rparr> \<and>
           read_vec s' (Ptr Uxip_space 0) NU_NAVI_TEST = Some u \<and>
           read_vec s' (Ptr Uxip_space NU_NAVI_TEST) NXI_NAVI_TEST = Some xi \<and>
           read_vec s' (Ptr Uxip_space (NU_NAVI_TEST + NXI_NAVI_TEST)) NP_NAVI_TEST = Some p"
proof -
  obtain bu ou where u: "pu = Ptr bu ou" "bu \<noteq> Uxip_space"
      "ou + NU_NAVI_TEST \<le> length (rheap s bu)"
      "u = take NU_NAVI_TEST (drop ou (rheap s bu))" "length u = NU_NAVI_TEST"
    using input_vec_read[OF assms(1,2)] by blast
  obtain bx ox where x: "pxi = Ptr bx ox" "bx \<noteq> Uxip_space"
      "ox + NXI_NAVI_TEST \<le> length (rheap s bx)"
      "xi = take NXI_NAVI_TEST (drop ox (rheap s bx))" "length xi = NXI_NAVI_TEST"
    using input_vec_read[OF assms(3,4)] by blast
  obtain bp op where p: "pp = Ptr bp op" "bp \<noteq> Uxip_space"
      "op + NP_NAVI_TEST \<le> length (rheap s bp)"
      "p = take NP_NAVI_TEST (drop op (rheap s bp))" "length p = NP_NAVI_TEST"
    using input_vec_read[OF assms(5,6)] by blast
  have "copy_args_into_uxip_space [pu, pxi, pp] s =
        Some (s\<lparr>rheap := (rheap s)(Uxip_space := u @ xi @ p)\<rparr>)"
    unfolding u(4) x(4) p(4)
    by (rule uxip_closed[OF _ _ _ u(2,3) x(2,3) p(2,3) assms(7)])
       (simp_all add: nth_opt_def u(1) x(1) p(1))
  then show ?thesis
    using u(5) x(5) p(5) by simp
qed

theorem copy_args_into_uxip_space_packs_witness:
  "input_vec ex_state (Ptr (Caller 0) 0) NU_NAVI_TEST \<and>
   read_vec ex_state (Ptr (Caller 0) 0) NU_NAVI_TEST = Some (replicate 40 1) \<and>
   input_vec ex_state (Ptr (Caller 1) 0) NXI_NAVI_TEST \<and>
   read_vec ex_state (Ptr (Caller 1) 0) NXI_NAVI_TEST = Some (replicate 41 2) \<and>
   input_vec ex_state (Ptr (Caller 2) 0) NP_NAVI_TEST \<and>
   read_vec ex_state (Ptr (Caller 2) 0) NP_NAVI_TEST = Some (replicate 2673 3) \<and>
   length (rheap ex_state Uxip_space) = NU_NAVI_TEST + NXI_NAVI_TEST + NP_NAVI_TEST \<and>
   (\<exists>s'. copy_args_into_uxip_space [Ptr (Caller 0) 0, Ptr (Caller 1) 0, Ptr (Caller 2) 0] ex_state
            = Some s' \<and>
         s' = ex_state\<lparr>rheap := (rheap ex_state)
                (Uxip_space := replicate 40 1 @ replicate 41 2 @ replicate 2673 3)\<rparr> \<and>
         read_vec s' (Ptr Uxip_space 0) NU_NAVI_TEST = Some (replicate 40 1) \<and>
         read_vec s' (Ptr Uxip_space NU_NAVI_TEST) NXI_NAVI_TEST = Some (replicate 41 2) \<and>
         read_vec s' (Ptr Uxip_space (NU_NAVI_TEST + NXI_NAVI_TEST)) NP_NAVI_TEST
            = Some (replicate 2673 3))"
proof -
  have h1: "input_vec ex_state (Ptr (Caller 0) 0) NU_NAVI_TEST"
    by (simp add: ex_state_def init_state_def NU_NAVI_TEST_def)
  have h2: "read_vec ex_state (Ptr (Caller 0) 0) NU_NAVI_TEST = Some (replicate 40 1)"
    by (simp add: ex_state_def init_state_def NU_NAVI_TEST_def)
  have h3: "input_vec ex_state (Ptr (Caller 1) 0) NXI_NAVI_TEST"
    by (simp add: ex_state_def init_state_def NXI_NAVI_TEST_def)
  have h4: "read_vec ex_state (Ptr (Caller 1) 0) NXI_NAVI_TEST = Some (replicate 41 2)"
    by (simp add: ex_state_def init_state_def NXI_NAVI_TEST_def)
  have h5: "input_vec ex_state (Ptr (Caller 2) 0) NP_NAVI_TEST"
    by (simp add: ex_state_def init_state_def NP_NAVI_TEST_def)
  have h6: "read_vec ex_state (Ptr (Caller 2) 0) NP_NAVI_TEST = Some (replicate 2673 3)"
    by (simp add: ex_state_def init_state_def NP_NAVI_TEST_def)
  have h7: "length (rheap ex_state Uxip_space) = NU_NAVI_TEST + NXI_NAVI_TEST + NP_NAVI_TEST"
    by (simp add: ex_state_def init_state_def)
  from copy_args_into_uxip_space_packs[OF h1 h2 h3 h4 h5 h6 h7] h1 h2 h3 h4 h5 h6 h7
  show ?thesis by blast
qed

subsection \<open>The reduced pack\<close>

text \<open>
  Claim C2. For input vectors \<open>u\<close> and \<open>p\<close> of \<open>Nu\<close> and \<open>Np\<close> reals and whatever
  \<^verbatim>\<open>uxip_space\<close> held before, \<^verbatim>\<open>copy_args_into_up_space({u, p})\<close> returns, writes \<open>u\<close> into
  \<open>[0, Nu)\<close> and \<open>p\<close> into \<open>[Nu + Nxi, Nu + Nxi + Np)\<close>, and every element of the region
  \<open>[Nu, Nu + Nxi)\<close> of \<open>xi\<close> has the value it had before the call.
\<close>

theorem copy_args_into_up_space_keeps_xi:
  assumes "input_vec s pu NU_NAVI_TEST" and "read_vec s pu NU_NAVI_TEST = Some u"
    and "input_vec s pp NP_NAVI_TEST" and "read_vec s pp NP_NAVI_TEST = Some p"
    and "length (rheap s Uxip_space) = NU_NAVI_TEST + NXI_NAVI_TEST + NP_NAVI_TEST"
  shows "\<exists>s'. copy_args_into_up_space [pu, pp] s = Some s' \<and>
           s' = s\<lparr>rheap := (rheap s)(Uxip_space :=
                  u @ take NXI_NAVI_TEST (drop NU_NAVI_TEST (rheap s Uxip_space)) @ p)\<rparr> \<and>
           read_vec s' (Ptr Uxip_space 0) NU_NAVI_TEST = Some u \<and>
           read_vec s' (Ptr Uxip_space (NU_NAVI_TEST + NXI_NAVI_TEST)) NP_NAVI_TEST = Some p \<and>
           read_vec s' (Ptr Uxip_space NU_NAVI_TEST) NXI_NAVI_TEST
             = read_vec s (Ptr Uxip_space NU_NAVI_TEST) NXI_NAVI_TEST \<and>
           (\<forall>i. NU_NAVI_TEST \<le> i \<and> i < NU_NAVI_TEST + NXI_NAVI_TEST \<longrightarrow>
                rheap s' Uxip_space ! i = rheap s Uxip_space ! i)"
proof -
  let ?W = "rheap s Uxip_space"
  let ?X = "take NXI_NAVI_TEST (drop NU_NAVI_TEST ?W)"
  obtain bu ou where u: "pu = Ptr bu ou" "bu \<noteq> Uxip_space"
      "ou + NU_NAVI_TEST \<le> length (rheap s bu)"
      "u = take NU_NAVI_TEST (drop ou (rheap s bu))" "length u = NU_NAVI_TEST"
    using input_vec_read[OF assms(1,2)] by blast
  obtain bp op where p: "pp = Ptr bp op" "bp \<noteq> Uxip_space"
      "op + NP_NAVI_TEST \<le> length (rheap s bp)"
      "p = take NP_NAVI_TEST (drop op (rheap s bp))" "length p = NP_NAVI_TEST"
    using input_vec_read[OF assms(3,4)] by blast
  have lX: "length ?X = NXI_NAVI_TEST"
    using assms(5) by simp
  have run: "copy_args_into_up_space [pu, pp] s =
        Some (s\<lparr>rheap := (rheap s)(Uxip_space := u @ ?X @ p)\<rparr>)"
    unfolding u(4) p(4)
    by (rule up_closed[OF _ _ u(2,3) p(2,3) assms(5)])
       (simp_all add: nth_opt_def u(1) p(1))
  have nth: "(u @ ?X @ p) ! i = ?W ! i"
    if "NU_NAVI_TEST \<le> i" "i < NU_NAVI_TEST + NXI_NAVI_TEST" for i
  proof -
    have "i - NU_NAVI_TEST < NXI_NAVI_TEST"
      using that by arith
    then have "(u @ ?X @ p) ! i = ?X ! (i - NU_NAVI_TEST)"
      using that(1) u(5) lX by (simp add: nth_append)
    also have "\<dots> = ?W ! i"
      using that assms(5) by simp
    finally show ?thesis .
  qed
  show ?thesis
    using run u(5) p(5) lX assms(5) nth by simp
qed

theorem copy_args_into_up_space_keeps_xi_witness:
  "input_vec ex_state (Ptr (Caller 0) 0) NU_NAVI_TEST \<and>
   read_vec ex_state (Ptr (Caller 0) 0) NU_NAVI_TEST = Some (replicate 40 1) \<and>
   input_vec ex_state (Ptr (Caller 2) 0) NP_NAVI_TEST \<and>
   read_vec ex_state (Ptr (Caller 2) 0) NP_NAVI_TEST = Some (replicate 2673 3) \<and>
   length (rheap ex_state Uxip_space) = NU_NAVI_TEST + NXI_NAVI_TEST + NP_NAVI_TEST \<and>
   (\<exists>s'. copy_args_into_up_space [Ptr (Caller 0) 0, Ptr (Caller 2) 0] ex_state = Some s' \<and>
         read_vec s' (Ptr Uxip_space 0) NU_NAVI_TEST = Some (replicate 40 1) \<and>
         read_vec s' (Ptr Uxip_space (NU_NAVI_TEST + NXI_NAVI_TEST)) NP_NAVI_TEST
           = Some (replicate 2673 3) \<and>
         read_vec s' (Ptr Uxip_space NU_NAVI_TEST) NXI_NAVI_TEST
           = read_vec ex_state (Ptr Uxip_space NU_NAVI_TEST) NXI_NAVI_TEST)"
proof -
  have h1: "input_vec ex_state (Ptr (Caller 0) 0) NU_NAVI_TEST"
    by (simp add: ex_state_def init_state_def NU_NAVI_TEST_def)
  have h2: "read_vec ex_state (Ptr (Caller 0) 0) NU_NAVI_TEST = Some (replicate 40 1)"
    by (simp add: ex_state_def init_state_def NU_NAVI_TEST_def)
  have h3: "input_vec ex_state (Ptr (Caller 2) 0) NP_NAVI_TEST"
    by (simp add: ex_state_def init_state_def NP_NAVI_TEST_def)
  have h4: "read_vec ex_state (Ptr (Caller 2) 0) NP_NAVI_TEST = Some (replicate 2673 3)"
    by (simp add: ex_state_def init_state_def NP_NAVI_TEST_def)
  have h5: "length (rheap ex_state Uxip_space) = NU_NAVI_TEST + NXI_NAVI_TEST + NP_NAVI_TEST"
    by (simp add: ex_state_def init_state_def)
  from copy_args_into_up_space_keeps_xi[OF h1 h2 h3 h4 h5] h1 h2 h3 h4 h5
  show ?thesis by blast
qed

subsection \<open>A dispatch function is its prefix and the call of its kernel\<close>

lemma dispatch_kernel_call:
  "dispatch m k K arg res s =
     (case kernel_call m k arg res s of None \<Rightarrow> None | Some c \<Rightarrow> invoke K c)"
  by (cases k)
     (simp_all add: cost_function_navi_test_def grad_cost_function_navi_test_def
        mapping_f1_function_navi_test_def mapping_f2_function_navi_test_def
        kernel_call_def invoke_def split: option.splits)

lemma kernel_call_fields:
  assumes "kernel_call m k arg res s = Some c"
  shows "c_res c = result_space m k" and "c_iw c = allocated_i_workspace m k"
    and "c_w c = allocated_r_workspace m k" and "c_mem c = VNull"
    and "array_init (sz_arg m k)
           (if full_pack k
            then [Ptr Uxip_space 0, Ptr Uxip_space NU_NAVI_TEST,
                  Ptr Uxip_space (NU_NAVI_TEST + NXI_NAVI_TEST)]
            else [Ptr Uxip_space 0, Ptr Uxip_space (NU_NAVI_TEST + NXI_NAVI_TEST)])
         = Some (c_arg c)"
  using assms
  by (auto simp: kernel_call_def uxip_space_def split: option.splits if_splits)

lemma kernel_call_full_closed:
  assumes k: "full_pack k"
    and a0: "nth_opt arg 0 = Some (Ptr bu pu)" and a1: "nth_opt arg 1 = Some (Ptr bx px)"
    and a2: "nth_opt arg 2 = Some (Ptr bp pp)"
    and nu: "bu \<noteq> Uxip_space" "pu + NU_NAVI_TEST \<le> length (rheap s bu)"
    and nx: "bx \<noteq> Uxip_space" "px + NXI_NAVI_TEST \<le> length (rheap s bx)"
    and np: "bp \<noteq> Uxip_space" "pp + NP_NAVI_TEST \<le> length (rheap s bp)"
    and len: "length (rheap s Uxip_space) = NU_NAVI_TEST + NXI_NAVI_TEST + NP_NAVI_TEST"
    and r0: "nth_opt res 0 = Some r0"
    and sz: "3 \<le> sz_arg m k" "0 < sz_res m k" "0 < length (pheap s k)"
  shows "kernel_call m k arg res s =
         Some \<lparr>c_arg = [Ptr Uxip_space 0, Ptr Uxip_space NU_NAVI_TEST,
                        Ptr Uxip_space (NU_NAVI_TEST + NXI_NAVI_TEST)]
                       @ replicate (sz_arg m k - 3) Null,
               c_res = Result_space k,
               c_iw = allocated_i_workspace m k, c_w = allocated_r_workspace m k,
               c_mem = VNull,
               c_state = s\<lparr>rheap := (rheap s)(Uxip_space :=
                              take NU_NAVI_TEST (drop pu (rheap s bu))
                              @ take NXI_NAVI_TEST (drop px (rheap s bx))
                              @ take NP_NAVI_TEST (drop pp (rheap s bp))),
                            pheap := (pheap s)(k := (pheap s k)[0 := r0])\<rparr>\<rparr>"
  using k r0 sz
  by (simp add: kernel_call_def uxip_closed[OF a0 a1 a2 nu nx np len] array_init_def
        uxip_space_def result_space_def)

lemma kernel_call_up_closed:
  assumes k: "\<not> full_pack k"
    and a0: "nth_opt arg 0 = Some (Ptr bu pu)" and a1: "nth_opt arg 1 = Some (Ptr bp pp)"
    and nu: "bu \<noteq> Uxip_space" "pu + NU_NAVI_TEST \<le> length (rheap s bu)"
    and np: "bp \<noteq> Uxip_space" "pp + NP_NAVI_TEST \<le> length (rheap s bp)"
    and len: "length (rheap s Uxip_space) = NU_NAVI_TEST + NXI_NAVI_TEST + NP_NAVI_TEST"
    and r0: "nth_opt res 0 = Some r0"
    and sz: "2 \<le> sz_arg m k" "0 < sz_res m k" "0 < length (pheap s k)"
  shows "kernel_call m k arg res s =
         Some \<lparr>c_arg = [Ptr Uxip_space 0, Ptr Uxip_space (NU_NAVI_TEST + NXI_NAVI_TEST)]
                       @ replicate (sz_arg m k - 2) Null,
               c_res = Result_space k,
               c_iw = allocated_i_workspace m k, c_w = allocated_r_workspace m k,
               c_mem = VNull,
               c_state = s\<lparr>rheap := (rheap s)(Uxip_space :=
                              take NU_NAVI_TEST (drop pu (rheap s bu))
                              @ take NXI_NAVI_TEST (drop NU_NAVI_TEST (rheap s Uxip_space))
                              @ take NP_NAVI_TEST (drop pp (rheap s bp))),
                            pheap := (pheap s)(k := (pheap s k)[0 := r0])\<rparr>\<rparr>"
  using k r0 sz
  by (simp add: kernel_call_def up_closed[OF a0 a1 nu np len] array_init_def
        uxip_space_def result_space_def)

text \<open>The sample store with the full pack and with the reduced pack done.\<close>

lemma ex_kernel_call_full:
  "full_pack k \<Longrightarrow> kernel_call ex_memory k ex_arg ex_res ex_state =
     Some \<lparr>c_arg = [Ptr Uxip_space 0, Ptr Uxip_space 40, Ptr Uxip_space 81],
           c_res = Result_space k, c_iw = INull, c_w = Ptr (Allocated_r_workspace k) 0,
           c_mem = VNull,
           c_state = ex_state\<lparr>rheap := (rheap ex_state)(Uxip_space :=
                        replicate 40 1 @ replicate 41 2 @ replicate 2673 3),
                      pheap := (pheap ex_state)(k := [Ptr (Caller 3) 0])\<rparr>\<rparr>"
  by (subst kernel_call_full_closed[where bu = "Caller 0" and pu = 0 and bx = "Caller 1"
        and px = 0 and bp = "Caller 2" and pp = 0 and ?r0.0 = "Ptr (Caller 3) 0"])
     (simp_all add: ex_arg_def ex_res_def ex_state_def ex_memory_def init_state_def nth_opt_def
        NU_NAVI_TEST_def NXI_NAVI_TEST_def NP_NAVI_TEST_def allocated_i_workspace_def
        allocated_r_workspace_def)

lemma ex_kernel_call_up:
  "\<not> full_pack k \<Longrightarrow> kernel_call ex_memory k ex_arg_up ex_res ex_state =
     Some \<lparr>c_arg = [Ptr Uxip_space 0, Ptr Uxip_space 81],
           c_res = Result_space k, c_iw = INull, c_w = Ptr (Allocated_r_workspace k) 0,
           c_mem = VNull,
           c_state = ex_state\<lparr>rheap := (rheap ex_state)(Uxip_space :=
                        replicate 40 1 @ replicate 41 0 @ replicate 2673 3),
                      pheap := (pheap ex_state)(k := [Ptr (Caller 3) 0])\<rparr>\<rparr>"
  by (subst kernel_call_up_closed[where bu = "Caller 0" and pu = 0
        and bp = "Caller 2" and pp = 0 and ?r0.0 = "Ptr (Caller 3) 0"])
     (simp_all add: ex_arg_up_def ex_res_def ex_state_def ex_memory_def init_state_def nth_opt_def
        NU_NAVI_TEST_def NXI_NAVI_TEST_def NP_NAVI_TEST_def allocated_i_workspace_def
        allocated_r_workspace_def)

subsection \<open>Valid calls in closed form\<close>

lemma caller_vec_cases:
  assumes "caller_vec s q n"
  obtains c off where "q = Ptr (Caller c) off" and "off + n \<le> length (rheap s (Caller c))"
  using assms by (cases "(s, q, n)" rule: caller_vec.cases) auto

lemma caller_ptr_cases:
  assumes "caller_ptr q" and "q \<noteq> Null"
  obtains c off where "q = Ptr (Caller c) off"
  using assms by (cases q rule: caller_ptr.cases) auto

lemma valid_call_sizes:
  assumes "valid_call m k arg res s"
  shows "length (rheap s Uxip_space) = NU_NAVI_TEST + NXI_NAVI_TEST + NP_NAVI_TEST"
    and "length (pheap s k) = sz_res m k" and "0 < sz_res m k"
    and "length (iheap s k) = sz_iw m k"
    and "length (rheap s (Allocated_r_workspace k)) = sz_w m k"
  using assms by (cases k; simp add: valid_call_def wf_state_def)+

lemma kernel_call_valid:
  assumes v: "valid_call m k arg res s"
  shows "kernel_call m k arg res s =
         Some \<lparr>c_arg = view_of m k, c_res = Result_space k,
               c_iw = allocated_i_workspace m k, c_w = allocated_r_workspace m k,
               c_mem = VNull,
               c_state = s\<lparr>rheap := (rheap s)(Uxip_space := packed k arg s),
                            pheap := (pheap s)(k := (pheap s k)[0 := res ! 0])\<rparr>\<rparr>"
proof (cases "full_pack k")
  case True
  from v True obtain cu ou where u: "arg ! 0 = Ptr (Caller cu) ou"
      "ou + NU_NAVI_TEST \<le> length (rheap s (Caller cu))"
    by (auto simp: valid_call_def elim: caller_vec_cases)
  from v True obtain cx ox where x: "arg ! 1 = Ptr (Caller cx) ox"
      "ox + NXI_NAVI_TEST \<le> length (rheap s (Caller cx))"
    by (auto simp: valid_call_def elim: caller_vec_cases)
  from v True obtain cp op where p: "arg ! 2 = Ptr (Caller cp) op"
      "op + NP_NAVI_TEST \<le> length (rheap s (Caller cp))"
    by (auto simp: valid_call_def elim: caller_vec_cases)
  from v True have la: "length arg = 3" and lr: "length res = 1" and sa: "3 \<le> sz_arg m k"
    by (simp_all add: valid_call_def)
  have "kernel_call m k arg res s =
         Some \<lparr>c_arg = [Ptr Uxip_space 0, Ptr Uxip_space NU_NAVI_TEST,
                        Ptr Uxip_space (NU_NAVI_TEST + NXI_NAVI_TEST)]
                       @ replicate (sz_arg m k - 3) Null,
               c_res = Result_space k,
               c_iw = allocated_i_workspace m k, c_w = allocated_r_workspace m k,
               c_mem = VNull,
               c_state = s\<lparr>rheap := (rheap s)(Uxip_space :=
                              take NU_NAVI_TEST (drop ou (rheap s (Caller cu)))
                              @ take NXI_NAVI_TEST (drop ox (rheap s (Caller cx)))
                              @ take NP_NAVI_TEST (drop op (rheap s (Caller cp)))),
                            pheap := (pheap s)(k := (pheap s k)[0 := res ! 0])\<rparr>\<rparr>"
    by (rule kernel_call_full_closed[OF True _ _ _ _ u(2) _ x(2) _ p(2)
          valid_call_sizes(1)[OF v] _ sa])
       (use la lr u(1) x(1) p(1) valid_call_sizes(2,3)[OF v] in \<open>simp_all add: nth_opt_def\<close>)
  then show ?thesis
    using True u(1) x(1) p(1) by (simp add: view_of_def spec_view_def packed_def)
next
  case False
  from v False obtain cu ou where u: "arg ! 0 = Ptr (Caller cu) ou"
      "ou + NU_NAVI_TEST \<le> length (rheap s (Caller cu))"
    by (auto simp: valid_call_def elim: caller_vec_cases)
  from v False obtain cp op where p: "arg ! 1 = Ptr (Caller cp) op"
      "op + NP_NAVI_TEST \<le> length (rheap s (Caller cp))"
    by (auto simp: valid_call_def elim: caller_vec_cases)
  from v False have la: "length arg = 2" and lr: "length res = 1" and sa: "2 \<le> sz_arg m k"
    by (simp_all add: valid_call_def)
  have "kernel_call m k arg res s =
         Some \<lparr>c_arg = [Ptr Uxip_space 0, Ptr Uxip_space (NU_NAVI_TEST + NXI_NAVI_TEST)]
                       @ replicate (sz_arg m k - 2) Null,
               c_res = Result_space k,
               c_iw = allocated_i_workspace m k, c_w = allocated_r_workspace m k,
               c_mem = VNull,
               c_state = s\<lparr>rheap := (rheap s)(Uxip_space :=
                              take NU_NAVI_TEST (drop ou (rheap s (Caller cu)))
                              @ take NXI_NAVI_TEST (drop NU_NAVI_TEST (rheap s Uxip_space))
                              @ take NP_NAVI_TEST (drop op (rheap s (Caller cp)))),
                            pheap := (pheap s)(k := (pheap s k)[0 := res ! 0])\<rparr>\<rparr>"
    by (rule kernel_call_up_closed[OF False _ _ _ u(2) _ p(2)
          valid_call_sizes(1)[OF v] _ sa])
       (use la lr u(1) p(1) valid_call_sizes(2,3)[OF v] in \<open>simp_all add: nth_opt_def\<close>)
  then show ?thesis
    using False u(1) p(1) by (simp add: view_of_def spec_view_def packed_def)
qed

lemma ex_state_wf: "wf_state ex_memory ex_state"
  by (simp add: wf_state_def ex_state_def init_state_def ex_memory_def)

lemma ex_valid_full: "full_pack k \<Longrightarrow> valid_call ex_memory k ex_arg ex_res ex_state"
  using ex_state_wf
  by (simp add: valid_call_def ex_arg_def ex_res_def)
     (simp add: ex_memory_def ex_state_def init_state_def NU_NAVI_TEST_def NXI_NAVI_TEST_def
        NP_NAVI_TEST_def)

lemma ex_valid_up: "\<not> full_pack k \<Longrightarrow> valid_call ex_memory k ex_arg_up ex_res ex_state"
  using ex_state_wf
  by (simp add: valid_call_def ex_arg_up_def ex_res_def)
     (simp add: ex_memory_def ex_state_def init_state_def NU_NAVI_TEST_def NXI_NAVI_TEST_def
        NP_NAVI_TEST_def)

subsection \<open>The status of the kernel\<close>

text \<open>
  Claim C3. Whatever the kernel and whatever the status \<open>c\<close>, zero or not: each of
  \<^verbatim>\<open>cost_function_navi_test\<close>, \<^verbatim>\<open>grad_cost_function_navi_test\<close>,
  \<^verbatim>\<open>mapping_f1_function_navi_test\<close> and \<^verbatim>\<open>mapping_f2_function_navi_test\<close> returns \<open>c\<close> (with
  the store \<open>s'\<close>) exactly when its single call of the kernel returns \<open>c\<close> (with the store
  \<open>s'\<close>). The status is not read, changed or replaced, and the kernel is not called again.
\<close>

theorem status_propagated:
  "(cost_function_navi_test m K arg res s = Some (c, s') \<longleftrightarrow>
      (\<exists>call. kernel_call m Cost arg res s = Some call \<and> invoke K call = Some (c, s'))) \<and>
   (grad_cost_function_navi_test m K arg res s = Some (c, s') \<longleftrightarrow>
      (\<exists>call. kernel_call m Grad arg res s = Some call \<and> invoke K call = Some (c, s'))) \<and>
   (mapping_f1_function_navi_test m K arg res s = Some (c, s') \<longleftrightarrow>
      (\<exists>call. kernel_call m F1 arg res s = Some call \<and> invoke K call = Some (c, s'))) \<and>
   (mapping_f2_function_navi_test m K arg res s = Some (c, s') \<longleftrightarrow>
      (\<exists>call. kernel_call m F2 arg res s = Some call \<and> invoke K call = Some (c, s')))"
  using dispatch_kernel_call[of m Cost K arg res s] dispatch_kernel_call[of m Grad K arg res s]
    dispatch_kernel_call[of m F1 K arg res s] dispatch_kernel_call[of m F2 K arg res s]
  by (auto split: option.splits)

theorem status_propagated_witness:
  "cost_function_navi_test ex_memory ex_status_kernel ex_arg ex_res ex_state =
     Some (7, ex_state\<lparr>rheap := (rheap ex_state)(Uxip_space :=
                        replicate 40 1 @ replicate 41 2 @ replicate 2673 3),
                      pheap := (pheap ex_state)(Cost := [Ptr (Caller 3) 0])\<rparr>)"
proof -
  let ?S = "ex_state\<lparr>rheap := (rheap ex_state)(Uxip_space :=
                        replicate 40 1 @ replicate 41 2 @ replicate 2673 3),
                      pheap := (pheap ex_state)(Cost := [Ptr (Caller 3) 0])\<rparr>"
  let ?call = "\<lparr>c_arg = [Ptr Uxip_space 0, Ptr Uxip_space 40, Ptr Uxip_space 81],
           c_res = Result_space Cost, c_iw = INull, c_w = Ptr (Allocated_r_workspace Cost) 0,
           c_mem = VNull, c_state = ?S\<rparr>"
  have a: "kernel_call ex_memory Cost ex_arg ex_res ex_state = Some ?call"
    by (rule ex_kernel_call_full) simp
  have b: "invoke ex_status_kernel ?call = Some (7, ?S)"
    by (simp add: invoke_def ex_status_kernel_def)
  from status_propagated[of ex_memory ex_status_kernel ex_arg ex_res ex_state 7 ?S] a b
  show ?thesis by blast
qed

subsection \<open>The argument views\<close>

text \<open>
  Claim C5. On every call that reaches the kernel, the kernel gets the array \<^verbatim>\<open>args__\<close>
  whose first entries are base pointers at fixed offsets into \<^verbatim>\<open>uxip_space\<close>: offsets \<open>0\<close>,
  \<open>Nu\<close>, \<open>Nu + Nxi\<close> (the regions of \<open>u\<close>, \<open>xi\<close>, \<open>p\<close>) for the cost and the gradient, offsets
  \<open>0\<close>, \<open>Nu + Nxi\<close> (the regions of \<open>u\<close>, \<open>p\<close>) for the two mappings. The array is declared
  with \<^verbatim>\<open>SZ_ARG\<close> entries; the entries after these are null, and there are none when
  \<^verbatim>\<open>SZ_ARG\<close> is the number of inputs.
\<close>

theorem argument_views:
  assumes "kernel_call m k arg res s = Some call"
  shows "dispatch m k K arg res s =
           K (c_arg call) (c_res call) (c_iw call) (c_w call) (c_mem call) (c_state call) \<and>
         c_arg call =
           (case k of
              Cost \<Rightarrow> [Ptr Uxip_space 0, Ptr Uxip_space NU_NAVI_TEST,
                       Ptr Uxip_space (NU_NAVI_TEST + NXI_NAVI_TEST)]
            | Grad \<Rightarrow> [Ptr Uxip_space 0, Ptr Uxip_space NU_NAVI_TEST,
                       Ptr Uxip_space (NU_NAVI_TEST + NXI_NAVI_TEST)]
            | F1 \<Rightarrow> [Ptr Uxip_space 0, Ptr Uxip_space (NU_NAVI_TEST + NXI_NAVI_TEST)]
            | F2 \<Rightarrow> [Ptr Uxip_space 0, Ptr Uxip_space (NU_NAVI_TEST + NXI_NAVI_TEST)])
           @ replicate (sz_arg m k - (case k of Cost \<Rightarrow> 3 | Grad \<Rightarrow> 3 | F1 \<Rightarrow> 2 | F2 \<Rightarrow> 2)) Null \<and>
         NU_NAVI_TEST = 40 \<and> NU_NAVI_TEST + NXI_NAVI_TEST = 81"
proof -
  have "dispatch m k K arg res s = invoke K call"
    using assms by (simp add: dispatch_kernel_call)
  moreover have "c_arg call =
           (case k of
              Cost \<Rightarrow> [Ptr Uxip_space 0, Ptr Uxip_space NU_NAVI_TEST,
                       Ptr Uxip_space (NU_NAVI_TEST + NXI_NAVI_TEST)]
            | Grad \<Rightarrow> [Ptr Uxip_space 0, Ptr Uxip_space NU_NAVI_TEST,
                       Ptr Uxip_space (NU_NAVI_TEST + NXI_NAVI_TEST)]
            | F1 \<Rightarrow> [Ptr Uxip_space 0, Ptr Uxip_space (NU_NAVI_TEST + NXI_NAVI_TEST)]
            | F2 \<Rightarrow> [Ptr Uxip_space 0, Ptr Uxip_space (NU_NAVI_TEST + NXI_NAVI_TEST)])
           @ replicate (sz_arg m k - (case k of Cost \<Rightarrow> 3 | Grad \<Rightarrow> 3 | F1 \<Rightarrow> 2 | F2 \<Rightarrow> 2)) Null"
    using kernel_call_fields(5)[OF assms]
    by (cases k) (auto simp: array_init_def numeral_3_eq_3 numeral_2_eq_2 split: if_splits)
  ultimately show ?thesis
    by (simp add: invoke_def NU_NAVI_TEST_def NXI_NAVI_TEST_def)
qed

theorem argument_views_witness:
  "kernel_call ex_memory Cost ex_arg ex_res ex_state =
     Some \<lparr>c_arg = [Ptr Uxip_space 0, Ptr Uxip_space 40, Ptr Uxip_space 81],
           c_res = Result_space Cost, c_iw = INull, c_w = Ptr (Allocated_r_workspace Cost) 0,
           c_mem = VNull,
           c_state = ex_state\<lparr>rheap := (rheap ex_state)(Uxip_space :=
                        replicate 40 1 @ replicate 41 2 @ replicate 2673 3),
                      pheap := (pheap ex_state)(Cost := [Ptr (Caller 3) 0])\<rparr>\<rparr> \<and>
   kernel_call ex_memory F1 ex_arg_up ex_res ex_state =
     Some \<lparr>c_arg = [Ptr Uxip_space 0, Ptr Uxip_space 81],
           c_res = Result_space F1, c_iw = INull, c_w = Ptr (Allocated_r_workspace F1) 0,
           c_mem = VNull,
           c_state = ex_state\<lparr>rheap := (rheap ex_state)(Uxip_space :=
                        replicate 40 1 @ replicate 41 0 @ replicate 2673 3),
                      pheap := (pheap ex_state)(F1 := [Ptr (Caller 3) 0])\<rparr>\<rparr> \<and>
   dispatch ex_memory Cost ex_status_kernel ex_arg ex_res ex_state =
     ex_status_kernel [Ptr Uxip_space 0, Ptr Uxip_space 40, Ptr Uxip_space 81]
       (Result_space Cost) INull (Ptr (Allocated_r_workspace Cost) 0) VNull
       (ex_state\<lparr>rheap := (rheap ex_state)(Uxip_space :=
                        replicate 40 1 @ replicate 41 2 @ replicate 2673 3),
                      pheap := (pheap ex_state)(Cost := [Ptr (Caller 3) 0])\<rparr>) \<and>
   dispatch ex_memory F1 ex_status_kernel ex_arg_up ex_res ex_state =
     ex_status_kernel [Ptr Uxip_space 0, Ptr Uxip_space 81]
       (Result_space F1) INull (Ptr (Allocated_r_workspace F1) 0) VNull
       (ex_state\<lparr>rheap := (rheap ex_state)(Uxip_space :=
                        replicate 40 1 @ replicate 41 0 @ replicate 2673 3),
                      pheap := (pheap ex_state)(F1 := [Ptr (Caller 3) 0])\<rparr>)"
proof -
  have a: "kernel_call ex_memory Cost ex_arg ex_res ex_state =
     Some \<lparr>c_arg = [Ptr Uxip_space 0, Ptr Uxip_space 40, Ptr Uxip_space 81],
           c_res = Result_space Cost, c_iw = INull, c_w = Ptr (Allocated_r_workspace Cost) 0,
           c_mem = VNull,
           c_state = ex_state\<lparr>rheap := (rheap ex_state)(Uxip_space :=
                        replicate 40 1 @ replicate 41 2 @ replicate 2673 3),
                      pheap := (pheap ex_state)(Cost := [Ptr (Caller 3) 0])\<rparr>\<rparr>"
    by (rule ex_kernel_call_full) simp
  have b: "kernel_call ex_memory F1 ex_arg_up ex_res ex_state =
     Some \<lparr>c_arg = [Ptr Uxip_space 0, Ptr Uxip_space 81],
           c_res = Result_space F1, c_iw = INull, c_w = Ptr (Allocated_r_workspace F1) 0,
           c_mem = VNull,
           c_state = ex_state\<lparr>rheap := (rheap ex_state)(Uxip_space :=
                        replicate 40 1 @ replicate 41 0 @ replicate 2673 3),
                      pheap := (pheap ex_state)(F1 := [Ptr (Caller 3) 0])\<rparr>\<rparr>"
    by (rule ex_kernel_call_up) simp
  from argument_views[OF a, of ex_status_kernel] argument_views[OF b, of ex_status_kernel] a b
  show ?thesis by simp
qed

subsection \<open>What a copy loop reads and what it leaves alone\<close>





subsection \<open>The reserved parameter count\<close>



subsection \<open>The copy routines do not look at the result arrays\<close>






subsection \<open>What the prefix of a dispatch function writes\<close>




subsection \<open>The state machine of the spec and the source\<close>

lemma spec_steps_add:
  "spec_steps (a + b) m k K arg res c =
     (case spec_steps a m k K arg res c of
        None \<Rightarrow> None
      | Some c' \<Rightarrow> spec_steps b m k K arg res c')"
  by (induction a arbitrary: c) (simp_all split: option.splits)











subsection \<open>What a kernel reads and writes\<close>

lemma read_w_rupd:
  "\<not> points_into w b \<Longrightarrow> read_w (s\<lparr>rheap := (rheap s)(b := X)\<rparr>) w = read_w s w"
  by (cases w) auto

lemma write_vec_rupd:
  "\<not> points_into q b \<Longrightarrow>
   write_vec (s\<lparr>rheap := (rheap s)(b := X)\<rparr>) q xs =
     map_option (\<lambda>s'. s'\<lparr>rheap := (rheap s')(b := X)\<rparr>) (write_vec s q xs)"
  by (cases q) (auto simp: fun_upd_twist)

lemma write_w_rupd:
  "\<not> points_into w b \<Longrightarrow>
   write_w (s\<lparr>rheap := (rheap s)(b := X)\<rparr>) w xs =
     map_option (\<lambda>s'. s'\<lparr>rheap := (rheap s')(b := X)\<rparr>) (write_w s w xs)"
  by (cases w) (auto simp: fun_upd_twist)

lemma write_iw_rupd:
  "write_iw (s\<lparr>rheap := (rheap s)(b := X)\<rparr>) iw xs =
     map_option (\<lambda>s'. s'\<lparr>rheap := (rheap s')(b := X)\<rparr>) (write_iw s iw xs)"
  by (cases iw) auto

lemma read_iw_rupd: "read_iw (s\<lparr>rheap := R\<rparr>) iw = read_iw s iw"
  by (cases iw) auto

lemma load_p_rupd: "load_p (s\<lparr>rheap := R\<rparr>) r i = load_p s r i"
  by (cases r) auto





lemma casadi_kernel_frame_r:
  assumes ri: "read_inputs (s\<lparr>rheap := (rheap s)(b := X)\<rparr>) av (k_in f)
                 = read_inputs s av (k_in f)"
    and w: "\<not> points_into w b"
    and out: "\<And>out. load_p s res 0 = Some out \<Longrightarrow> \<not> points_into out b"
  shows "casadi_kernel f av res iw w mem (s\<lparr>rheap := (rheap s)(b := X)\<rparr>) =
         map_option (\<lambda>(c, s'). (c, s'\<lparr>rheap := (rheap s')(b := X)\<rparr>))
           (casadi_kernel f av res iw w mem s)"
proof (cases "read_inputs s av (k_in f)")
  case None
  then show ?thesis by (simp add: casadi_kernel_def ri)
next
  case ins: (Some ins)
  show ?thesis
  proof (cases "load_p s res 0")
    case None
    then show ?thesis by (simp add: casadi_kernel_def ri ins load_p_rupd)
  next
    case o: (Some out)
    obtain c y iw' w' where ev: "k_eval f ins (read_iw s iw) (read_w s w) = (c, y, iw', w')"
      by (cases "k_eval f ins (read_iw s iw) (read_w s w)") auto
    show ?thesis
    proof (cases "write_iw s iw iw'")
      case None
      then show ?thesis
        by (simp add: casadi_kernel_def ri ins load_p_rupd o read_iw_rupd read_w_rupd[OF w] ev
              write_iw_rupd)
    next
      case i1: (Some s1)
      show ?thesis
      proof (cases "write_w s1 w w'")
        case None
        then show ?thesis
          by (simp add: casadi_kernel_def ri ins load_p_rupd o read_iw_rupd read_w_rupd[OF w] ev
                write_iw_rupd i1 write_w_rupd[OF w])
      next
        case w1: (Some s2)
        show ?thesis
        proof (cases "write_vec s2 out y")
          case None
          then show ?thesis
            by (simp add: casadi_kernel_def ri ins load_p_rupd o read_iw_rupd read_w_rupd[OF w]
                  ev write_iw_rupd i1 write_w_rupd[OF w] w1 write_vec_rupd[OF out[OF o]])
        next
          case (Some s3)
          then show ?thesis
            by (simp add: casadi_kernel_def ri ins load_p_rupd o read_iw_rupd read_w_rupd[OF w]
                  ev write_iw_rupd i1 write_w_rupd[OF w] w1 write_vec_rupd[OF out[OF o]])
        qed
      qed
    qed
  qed
qed

subsection \<open>Valid calls and other stores\<close>

lemma caller_vec_rupd:
  "(\<And>n. b \<noteq> Caller n) \<Longrightarrow>
   caller_vec (s\<lparr>rheap := (rheap s)(b := X)\<rparr>) q n = caller_vec s q n"
  by (cases "(s, q, n)" rule: caller_vec.cases) auto

lemma vec_of_rupd:
  "\<not> points_into q b \<Longrightarrow> vec_of (s\<lparr>rheap := (rheap s)(b := X)\<rparr>) q n = vec_of s q n"
  by (cases q) auto

lemma caller_vec_not_into:
  "caller_vec s q n \<Longrightarrow> (\<And>c. b \<noteq> Caller c) \<Longrightarrow> \<not> points_into q b"
  by (cases "(s, q, n)" rule: caller_vec.cases) auto

lemma caller_ptr_not_into:
  "caller_ptr q \<Longrightarrow> (\<And>c. b \<noteq> Caller c) \<Longrightarrow> \<not> points_into q b"
  by (cases q rule: caller_ptr.cases) auto

lemma caller_vec_length:
  "caller_vec s q n \<Longrightarrow> length (vec_of s q n) = n"
  by (cases "(s, q, n)" rule: caller_vec.cases) auto

lemma valid_call_uxip:
  assumes "valid_call m k arg res s"
    and "length ws = NU_NAVI_TEST + NXI_NAVI_TEST + NP_NAVI_TEST"
  shows "valid_call m k arg res (s\<lparr>rheap := (rheap s)(Uxip_space := ws)\<rparr>)"
  using assms by (cases "full_pack k") (simp_all add: valid_call_def wf_state_def caller_vec_rupd)

lemma valid_call_up:
  assumes "valid_call m k arg res s" and "\<not> full_pack k"
  shows "caller_vec s (arg ! 0) NU_NAVI_TEST" and "caller_vec s (arg ! 1) NP_NAVI_TEST"
    and "caller_ptr (res ! 0)" and "res ! 0 \<noteq> Null"
  using assms by (simp_all add: valid_call_def)

lemma valid_call_full:
  assumes "valid_call m k arg res s" and "full_pack k"
  shows "caller_vec s (arg ! 0) NU_NAVI_TEST" and "caller_vec s (arg ! 1) NXI_NAVI_TEST"
    and "caller_vec s (arg ! 2) NP_NAVI_TEST"
    and "caller_ptr (res ! 0)" and "res ! 0 \<noteq> Null"
  using assms by (simp_all add: valid_call_def)

lemma allocated_r_workspace_not_into:
  "(\<And>j. b \<noteq> Allocated_r_workspace j) \<Longrightarrow> \<not> points_into (allocated_r_workspace m k) b"
  by (auto simp: allocated_r_workspace_def)

subsection \<open>The sample kernels run\<close>

lemma ex_run_up:
  "\<not> full_pack k \<Longrightarrow>
   dispatch ex_memory k (casadi_kernel ex_kernel_up) ex_arg_up ex_res ex_state =
     Some (0, ex_state\<lparr>rheap := (rheap ex_state)
                 (Uxip_space := replicate 40 1 @ replicate 41 0 @ replicate 2673 3,
                  Allocated_r_workspace k := replicate 2 0,
                  Caller 3 := 1 # replicate 39 0),
               pheap := (pheap ex_state)(k := [Ptr (Caller 3) 0])\<rparr>)"
  apply (simp add: dispatch_kernel_call ex_kernel_call_up invoke_def casadi_kernel_def
      ex_kernel_up_def del: dispatch.simps)
  apply (simp add: ex_state_def init_state_def ex_memory_def)
  done

lemma ex_run_full:
  "full_pack k \<Longrightarrow>
   dispatch ex_memory k (casadi_kernel ex_kernel) ex_arg ex_res ex_state =
     Some (7, ex_state\<lparr>rheap := (rheap ex_state)
                 (Uxip_space := replicate 40 1 @ replicate 41 2 @ replicate 2673 3,
                  Allocated_r_workspace k := replicate 2 0,
                  Caller 3 := 2 # replicate 39 0),
               pheap := (pheap ex_state)(k := [Ptr (Caller 3) 0])\<rparr>)"
  apply (simp add: dispatch_kernel_call ex_kernel_call_full invoke_def casadi_kernel_def
      ex_kernel_def del: dispatch.simps)
  apply (simp add: ex_state_def init_state_def ex_memory_def)
  done

subsection \<open>The mappings do not depend on the region of xi\<close>

text \<open>
  Claim C4. Take a valid call of \<^verbatim>\<open>mapping_f1_function_navi_test\<close> or
  \<^verbatim>\<open>mapping_f2_function_navi_test\<close> with a kernel that, as the spec says of the mapping
  kernels, reads only its declared inputs: at most \<open>Nu\<close> reals through its first argument
  and at most \<open>Np\<close> through its second. Run it again from a store that differs in the
  contents of \<^verbatim>\<open>uxip_space\<close>, in the region of \<open>xi\<close> or anywhere else, with the same \<open>u\<close>
  and \<open>p\<close>: the status is the same, and every array but \<^verbatim>\<open>uxip_space\<close>, the output buffer
  of the caller among them, ends with the same contents.
\<close>

theorem mapping_independent_of_xi:
  assumes k: "k = F1 \<or> k = F2"
    and v: "valid_call m k arg res s"
    and f: "k_in f = [nu, np]" "nu \<le> NU_NAVI_TEST" "np \<le> NP_NAVI_TEST"
    and ws: "length ws = NU_NAVI_TEST + NXI_NAVI_TEST + NP_NAVI_TEST"
    and run: "dispatch m k (casadi_kernel f) arg res s = Some (c, s')"
  shows "\<exists>t'. dispatch m k (casadi_kernel f) arg res (s\<lparr>rheap := (rheap s)(Uxip_space := ws)\<rparr>)
                = Some (c, t') \<and>
              (\<forall>b. b \<noteq> Uxip_space \<longrightarrow> rheap t' b = rheap s' b) \<and>
              iheap t' = iheap s' \<and> pheap t' = pheap s'"
proof -
  from k have nf: "\<not> full_pack k" by auto
  let ?t = "s\<lparr>rheap := (rheap s)(Uxip_space := ws)\<rparr>"
  let ?U = "vec_of s (arg ! 0) NU_NAVI_TEST" and ?P = "vec_of s (arg ! 1) NP_NAVI_TEST"
  let ?X = "take NXI_NAVI_TEST (drop NU_NAVI_TEST (rheap s Uxip_space))"
  let ?X' = "take NXI_NAVI_TEST (drop NU_NAVI_TEST ws)"
  let ?S = "s\<lparr>rheap := (rheap s)(Uxip_space := ?U @ ?X @ ?P),
              pheap := (pheap s)(k := (pheap s k)[0 := res ! 0])\<rparr>"
  note vu = valid_call_up[OF v nf]
  have lU: "length ?U = NU_NAVI_TEST" and lP: "length ?P = NP_NAVI_TEST"
    using vu(1,2) by (simp_all add: caller_vec_length)
  have lX: "length ?X = NXI_NAVI_TEST" "length ?X' = NXI_NAVI_TEST"
    using valid_call_sizes(1)[OF v] ws by simp_all
  have ni: "\<not> points_into (arg ! 0) Uxip_space" "\<not> points_into (arg ! 1) Uxip_space"
    by (rule caller_vec_not_into[OF vu(1)], simp, rule caller_vec_not_into[OF vu(2)], simp)
  have pk: "packed k arg s = ?U @ ?X @ ?P" "packed k arg ?t = ?U @ ?X' @ ?P"
    using nf ni by (simp_all add: packed_def vec_of_rupd)
  have cs: "kernel_call m k arg res s =
         Some \<lparr>c_arg = view_of m k, c_res = Result_space k,
               c_iw = allocated_i_workspace m k, c_w = allocated_r_workspace m k,
               c_mem = VNull, c_state = ?S\<rparr>"
    using kernel_call_valid[OF v] pk(1) by simp
  have ct: "kernel_call m k arg res ?t =
         Some \<lparr>c_arg = view_of m k, c_res = Result_space k,
               c_iw = allocated_i_workspace m k, c_w = allocated_r_workspace m k,
               c_mem = VNull,
               c_state = ?S\<lparr>rheap := (rheap ?S)(Uxip_space := ?U @ ?X' @ ?P)\<rparr>\<rparr>"
    using kernel_call_valid[OF valid_call_uxip[OF v ws]] pk(2) by simp
  have rd: "read_inputs s0 (view_of m k) [nu, np] = Some [take nu ?U, take np ?P]"
    if "rheap s0 Uxip_space = ?U @ Y @ ?P" "length Y = NXI_NAVI_TEST" for Y s0
    using nf f(2,3) lU lP that by (simp add: view_of_def spec_view_def)
  have ri: "read_inputs (?S\<lparr>rheap := (rheap ?S)(Uxip_space := ?U @ ?X' @ ?P)\<rparr>) (view_of m k) (k_in f)
              = read_inputs ?S (view_of m k) (k_in f)"
    unfolding f(1)
    by (subst rd[OF _ lX(2)], simp, subst rd[OF _ lX(1)], simp, simp)
  have wi: "\<not> points_into (allocated_r_workspace m k) Uxip_space"
    by (rule allocated_r_workspace_not_into) simp
  have oi: "\<not> points_into out Uxip_space" if "load_p ?S (Result_space k) 0 = Some out" for out
  proof -
    from that valid_call_sizes(2,3)[OF v] have "out = res ! 0"
      by (auto split: if_splits)
    then show ?thesis
      using caller_ptr_not_into[OF vu(3), of Uxip_space] by simp
  qed
  have fr: "casadi_kernel f (view_of m k) (Result_space k) (allocated_i_workspace m k)
              (allocated_r_workspace m k) VNull
              (?S\<lparr>rheap := (rheap ?S)(Uxip_space := ?U @ ?X' @ ?P)\<rparr>) =
         map_option (\<lambda>(c, s'). (c, s'\<lparr>rheap := (rheap s')(Uxip_space := ?U @ ?X' @ ?P)\<rparr>))
           (casadi_kernel f (view_of m k) (Result_space k) (allocated_i_workspace m k)
              (allocated_r_workspace m k) VNull ?S)"
    by (rule casadi_kernel_frame_r[OF ri wi oi])
  from run have "casadi_kernel f (view_of m k) (Result_space k) (allocated_i_workspace m k)
              (allocated_r_workspace m k) VNull ?S = Some (c, s')"
    by (simp add: dispatch_kernel_call cs invoke_def)
  with fr have "dispatch m k (casadi_kernel f) arg res ?t =
      Some (c, s'\<lparr>rheap := (rheap s')(Uxip_space := ?U @ ?X' @ ?P)\<rparr>)"
    by (simp add: dispatch_kernel_call ct invoke_def)
  then show ?thesis by simp
qed

theorem mapping_independent_of_xi_witness:
  "valid_call ex_memory F1 ex_arg_up ex_res ex_state \<and>
   k_in ex_kernel_up = [40, 2673] \<and> 40 \<le> NU_NAVI_TEST \<and> 2673 \<le> NP_NAVI_TEST \<and>
   length (replicate 2754 (9 :: casadi_real)) = NU_NAVI_TEST + NXI_NAVI_TEST + NP_NAVI_TEST \<and>
   dispatch ex_memory F1 (casadi_kernel ex_kernel_up) ex_arg_up ex_res ex_state =
     Some (0, ex_state\<lparr>rheap := (rheap ex_state)
                 (Uxip_space := replicate 40 1 @ replicate 41 0 @ replicate 2673 3,
                  Allocated_r_workspace F1 := replicate 2 0,
                  Caller 3 := 1 # replicate 39 0),
               pheap := (pheap ex_state)(F1 := [Ptr (Caller 3) 0])\<rparr>) \<and>
   (\<exists>t'. dispatch ex_memory F1 (casadi_kernel ex_kernel_up) ex_arg_up ex_res
            (ex_state\<lparr>rheap := (rheap ex_state)(Uxip_space := replicate 2754 9)\<rparr>)
           = Some (0, t') \<and>
         rheap t' (Caller 3) = 1 # replicate 39 0)"
proof -
  let ?S = "ex_state\<lparr>rheap := (rheap ex_state)
                 (Uxip_space := replicate 40 1 @ replicate 41 0 @ replicate 2673 3,
                  Allocated_r_workspace F1 := replicate 2 0,
                  Caller 3 := 1 # replicate 39 0),
               pheap := (pheap ex_state)(F1 := [Ptr (Caller 3) 0])\<rparr>"
  have v: "valid_call ex_memory F1 ex_arg_up ex_res ex_state"
    by (rule ex_valid_up) simp
  have f: "k_in ex_kernel_up = [40, 2673]" "40 \<le> NU_NAVI_TEST" "2673 \<le> NP_NAVI_TEST"
    by (simp_all add: ex_kernel_up_def NU_NAVI_TEST_def NP_NAVI_TEST_def)
  have ws: "length (replicate 2754 (9 :: casadi_real))
      = NU_NAVI_TEST + NXI_NAVI_TEST + NP_NAVI_TEST"
    by (simp add: NU_NAVI_TEST_def NXI_NAVI_TEST_def NP_NAVI_TEST_def)
  have run: "dispatch ex_memory F1 (casadi_kernel ex_kernel_up) ex_arg_up ex_res ex_state
      = Some (0, ?S)"
    by (rule ex_run_up) simp
  from mapping_independent_of_xi[OF _ v f ws run]
  obtain t' where "dispatch ex_memory F1 (casadi_kernel ex_kernel_up) ex_arg_up ex_res
            (ex_state\<lparr>rheap := (rheap ex_state)(Uxip_space := replicate 2754 9)\<rparr>)
           = Some (0, t')" and "rheap t' (Caller 3) = rheap ?S (Caller 3)"
    by auto
  then have "\<exists>t'. dispatch ex_memory F1 (casadi_kernel ex_kernel_up) ex_arg_up ex_res
            (ex_state\<lparr>rheap := (rheap ex_state)(Uxip_space := replicate 2754 9)\<rparr>)
           = Some (0, t') \<and>
         rheap t' (Caller 3) = 1 # replicate 39 0"
    by auto
  with v f ws run show ?thesis by blast
qed

subsection \<open>A kernel and the scratch arenas of the other kernels\<close>

lemma read_vec_iupd: "read_vec (s\<lparr>iheap := I\<rparr>) q n = read_vec s q n"
  by (cases q) auto

lemma read_inputs_iupd: "read_inputs (s\<lparr>iheap := I\<rparr>) av ns = read_inputs s av ns"
proof (induction av arbitrary: ns)
  case Nil
  show ?case by (cases ns) simp_all
next
  case (Cons a av)
  show ?case by (cases ns) (simp_all add: read_vec_iupd Cons.IH cong: option.case_cong)
qed

lemma load_p_iupd: "load_p (s\<lparr>iheap := I\<rparr>) r i = load_p s r i"
  by (cases r) auto

lemma read_w_iupd: "read_w (s\<lparr>iheap := I\<rparr>) w = read_w s w"
  by (cases w) auto

lemma read_iw_iupd:
  "iw \<noteq> Allocated_i_workspace j \<Longrightarrow> read_iw (s\<lparr>iheap := (iheap s)(j := X)\<rparr>) iw = read_iw s iw"
  by (cases iw) auto

lemma write_iw_iupd:
  "iw \<noteq> Allocated_i_workspace j \<Longrightarrow>
   write_iw (s\<lparr>iheap := (iheap s)(j := X)\<rparr>) iw xs =
     map_option (\<lambda>s'. s'\<lparr>iheap := (iheap s')(j := X)\<rparr>) (write_iw s iw xs)"
  by (cases iw) (auto simp: fun_upd_twist)

lemma write_vec_iupd:
  "write_vec (s\<lparr>iheap := (iheap s)(j := X)\<rparr>) q xs =
     map_option (\<lambda>s'. s'\<lparr>iheap := (iheap s')(j := X)\<rparr>) (write_vec s q xs)"
  by (cases q) auto

lemma write_w_iupd:
  "write_w (s\<lparr>iheap := (iheap s)(j := X)\<rparr>) w xs =
     map_option (\<lambda>s'. s'\<lparr>iheap := (iheap s')(j := X)\<rparr>) (write_w s w xs)"
  by (cases w) auto

lemma casadi_kernel_frame_i:
  assumes iw: "iw \<noteq> Allocated_i_workspace j"
  shows "casadi_kernel f av res iw w mem (s\<lparr>iheap := (iheap s)(j := X)\<rparr>) =
         map_option (\<lambda>(c, s'). (c, s'\<lparr>iheap := (iheap s')(j := X)\<rparr>))
           (casadi_kernel f av res iw w mem s)"
proof (cases "read_inputs s av (k_in f)")
  case None
  then show ?thesis by (simp add: casadi_kernel_def read_inputs_iupd)
next
  case ins: (Some ins)
  show ?thesis
  proof (cases "load_p s res 0")
    case None
    then show ?thesis by (simp add: casadi_kernel_def read_inputs_iupd ins load_p_iupd)
  next
    case o: (Some out)
    obtain c y iw' w' where ev: "k_eval f ins (read_iw s iw) (read_w s w) = (c, y, iw', w')"
      by (cases "k_eval f ins (read_iw s iw) (read_w s w)") auto
    show ?thesis
    proof (cases "write_iw s iw iw'")
      case None
      then show ?thesis
        by (simp add: casadi_kernel_def read_inputs_iupd ins load_p_iupd o read_iw_iupd[OF iw]
              read_w_iupd ev write_iw_iupd[OF iw])
    next
      case i1: (Some s1)
      show ?thesis
      proof (cases "write_w s1 w w'")
        case None
        then show ?thesis
          by (simp add: casadi_kernel_def read_inputs_iupd ins load_p_iupd o read_iw_iupd[OF iw]
                read_w_iupd ev write_iw_iupd[OF iw] i1 write_w_iupd)
      next
        case w1: (Some s2)
        show ?thesis
        proof (cases "write_vec s2 out y")
          case None
          then show ?thesis
            by (simp add: casadi_kernel_def read_inputs_iupd ins load_p_iupd o
                  read_iw_iupd[OF iw] read_w_iupd ev write_iw_iupd[OF iw] i1 write_w_iupd w1
                  write_vec_iupd)
        next
          case (Some s3)
          then show ?thesis
            by (simp add: casadi_kernel_def read_inputs_iupd ins load_p_iupd o
                  read_iw_iupd[OF iw] read_w_iupd ev write_iw_iupd[OF iw] i1 write_w_iupd w1
                  write_vec_iupd)
        qed
      qed
    qed
  qed
qed

lemma read_inputs_uxip_only:
  assumes "\<forall>q\<in>set av. q = Null \<or> (\<exists>off. q = Ptr Uxip_space off)"
    and "rheap s Uxip_space = rheap t Uxip_space"
  shows "read_inputs s av ns = read_inputs t av ns"
  using assms(1)
proof (induction av arbitrary: ns)
  case Nil
  show ?case by (cases ns) simp_all
next
  case (Cons a av)
  from Cons.prems assms(2) have rv: "read_vec s a n = read_vec t a n" for n by auto
  from Cons.prems have "read_inputs s av ns' = read_inputs t av ns'" for ns'
    by (intro Cons.IH) simp
  then show ?case by (cases ns) (simp_all add: rv cong: option.case_cong)
qed

lemma view_of_uxip: "\<forall>q\<in>set (view_of m k). q = Null \<or> (\<exists>off. q = Ptr Uxip_space off)"
  by (auto simp: view_of_def spec_view_def)

lemma allocated_i_workspace_other:
  "j \<noteq> k \<Longrightarrow> allocated_i_workspace m k \<noteq> Allocated_i_workspace j"
  by (auto simp: allocated_i_workspace_def)

lemma allocated_r_workspace_other:
  "j \<noteq> k \<Longrightarrow> \<not> points_into (allocated_r_workspace m k) (Allocated_r_workspace j)"
  by (auto simp: allocated_r_workspace_def)


lemma caller_vec_cong:
  "(\<And>c. rheap t (Caller c) = rheap s (Caller c)) \<Longrightarrow> caller_vec t q n = caller_vec s q n"
  by (cases "(s, q, n)" rule: caller_vec.cases) auto

lemma packed_cong:
  assumes "valid_call m k arg res s"
    and "\<And>c. rheap t (Caller c) = rheap s (Caller c)"
    and "rheap t Uxip_space = rheap s Uxip_space"
  shows "packed k arg t = packed k arg s"
proof -
  have "vec_of t q n = vec_of s q n" if "caller_vec s q n" for q n
    using that assms(2) by (cases "(s, q, n)" rule: caller_vec.cases) auto
  with assms(1,3) show ?thesis
    by (cases "full_pack k") (simp_all add: packed_def valid_call_def)
qed

lemma valid_call_scratch:
  assumes v: "valid_call m k arg res s"
    and l: "length ws = length (rheap s (Allocated_r_workspace j))"
      "length is = length (iheap s j)"
  shows "valid_call m k arg res
           (s\<lparr>rheap := (rheap s)(Allocated_r_workspace j := ws), iheap := (iheap s)(j := is)\<rparr>)"
proof -
  let ?t = "s\<lparr>rheap := (rheap s)(Allocated_r_workspace j := ws), iheap := (iheap s)(j := is)\<rparr>"
  have wf: "wf_state m ?t"
    using v l by (cases j) (simp_all add: valid_call_def wf_state_def)
  have cv: "caller_vec ?t q n = caller_vec s q n" for q n
    by (rule caller_vec_cong) simp
  show ?thesis
    using v wf by (cases "full_pack k") (simp_all add: valid_call_def cv)
qed

text \<open>
  Claim C9. Each dispatch function calls its kernel with the integer and the real scratch
  arena of that kernel and with a null \<^verbatim>\<open>mem\<close>. An arena is the null pointer exactly when
  its declared size is zero, and otherwise the start of the static array of that kernel;
  the arrays of two kernels are different objects. So, for kernels that use the memory
  they are handed (the spec's kernels), overwriting the arenas of another kernel before a
  valid call changes nothing in the status or in what the call writes.
\<close>

theorem scratch_arenas:
  "(kernel_call m k arg res s = Some call \<longrightarrow>
      dispatch m k K arg res s =
        K (c_arg call) (c_res call) (c_iw call) (c_w call) (c_mem call) (c_state call) \<and>
      c_iw call = allocated_i_workspace m k \<and> c_w call = allocated_r_workspace m k \<and>
      c_mem call = VNull) \<and>
   (allocated_i_workspace m k = INull \<longleftrightarrow> sz_iw m k = 0) \<and>
   (allocated_i_workspace m k \<noteq> INull \<longrightarrow>
      allocated_i_workspace m k = Allocated_i_workspace k) \<and>
   (allocated_r_workspace m k = Null \<longleftrightarrow> sz_w m k = 0) \<and>
   (allocated_r_workspace m k \<noteq> Null \<longrightarrow>
      allocated_r_workspace m k = Ptr (Allocated_r_workspace k) 0) \<and>
   (j \<noteq> k \<longrightarrow> Allocated_i_workspace j \<noteq> Allocated_i_workspace k \<and>
              Allocated_r_workspace j \<noteq> Allocated_r_workspace k) \<and>
   (valid_call m k arg res s \<and> j \<noteq> k \<and>
    length ws = length (rheap s (Allocated_r_workspace j)) \<and> length is = length (iheap s j) \<longrightarrow>
      dispatch m k (casadi_kernel f) arg res
        (s\<lparr>rheap := (rheap s)(Allocated_r_workspace j := ws), iheap := (iheap s)(j := is)\<rparr>) =
      map_option
        (\<lambda>(c, s'). (c, s'\<lparr>rheap := (rheap s')(Allocated_r_workspace j := ws),
                          iheap := (iheap s')(j := is)\<rparr>))
        (dispatch m k (casadi_kernel f) arg res s))"
proof -
  have a: "dispatch m k K arg res s =
        K (c_arg call) (c_res call) (c_iw call) (c_w call) (c_mem call) (c_state call) \<and>
      c_iw call = allocated_i_workspace m k \<and> c_w call = allocated_r_workspace m k \<and>
      c_mem call = VNull"
    if "kernel_call m k arg res s = Some call"
    using that kernel_call_fields(2-4)[OF that] by (simp add: dispatch_kernel_call invoke_def)
  have b: "(allocated_i_workspace m k = INull \<longleftrightarrow> sz_iw m k = 0) \<and>
   (allocated_i_workspace m k \<noteq> INull \<longrightarrow>
      allocated_i_workspace m k = Allocated_i_workspace k) \<and>
   (allocated_r_workspace m k = Null \<longleftrightarrow> sz_w m k = 0) \<and>
   (allocated_r_workspace m k \<noteq> Null \<longrightarrow>
      allocated_r_workspace m k = Ptr (Allocated_r_workspace k) 0)"
    by (simp add: allocated_i_workspace_def allocated_r_workspace_def)
  have e: "dispatch m k (casadi_kernel f) arg res
        (s\<lparr>rheap := (rheap s)(Allocated_r_workspace j := ws), iheap := (iheap s)(j := is)\<rparr>) =
      map_option
        (\<lambda>(c, s'). (c, s'\<lparr>rheap := (rheap s')(Allocated_r_workspace j := ws),
                          iheap := (iheap s')(j := is)\<rparr>))
        (dispatch m k (casadi_kernel f) arg res s)"
    if v: "valid_call m k arg res s" and jk: "j \<noteq> k"
      and l: "length ws = length (rheap s (Allocated_r_workspace j))"
        "length is = length (iheap s j)"
  proof -
    let ?t = "s\<lparr>rheap := (rheap s)(Allocated_r_workspace j := ws),
                 iheap := (iheap s)(j := is)\<rparr>"
    let ?S = "s\<lparr>rheap := (rheap s)(Uxip_space := packed k arg s),
                 pheap := (pheap s)(k := (pheap s k)[0 := res ! 0])\<rparr>"
    let ?Sr = "?S\<lparr>rheap := (rheap ?S)(Allocated_r_workspace j := ws)\<rparr>"
    let ?run = "\<lambda>s0. casadi_kernel f (view_of m k) (Result_space k) (allocated_i_workspace m k)
                  (allocated_r_workspace m k) VNull s0"
    have pk: "packed k arg ?t = packed k arg s"
      by (rule packed_cong[OF v]) simp_all
    have cs: "dispatch m k (casadi_kernel f) arg res s = ?run ?S"
      by (simp add: dispatch_kernel_call kernel_call_valid[OF v] invoke_def)
    have St: "?t\<lparr>rheap := (rheap ?t)(Uxip_space := packed k arg s),
                 pheap := (pheap ?t)(k := (pheap ?t k)[0 := res ! 0])\<rparr>
              = ?Sr\<lparr>iheap := (iheap ?Sr)(j := is)\<rparr>"
      by (simp add: fun_upd_twist)
    have ct: "dispatch m k (casadi_kernel f) arg res ?t = ?run (?Sr\<lparr>iheap := (iheap ?Sr)(j := is)\<rparr>)"
      unfolding St[symmetric]
      by (simp add: dispatch_kernel_call kernel_call_valid[OF valid_call_scratch[OF v l]]
            invoke_def pk)
    have fi: "?run (?Sr\<lparr>iheap := (iheap ?Sr)(j := is)\<rparr>) =
        map_option (\<lambda>(c, s'). (c, s'\<lparr>iheap := (iheap s')(j := is)\<rparr>)) (?run ?Sr)"
      by (rule casadi_kernel_frame_i[OF allocated_i_workspace_other[OF jk]])
    have ri: "read_inputs ?Sr (view_of m k) (k_in f) = read_inputs ?S (view_of m k) (k_in f)"
      by (rule read_inputs_uxip_only[OF view_of_uxip]) simp
    have oi: "\<not> points_into out (Allocated_r_workspace j)"
      if "load_p ?S (Result_space k) 0 = Some out" for out
    proof -
      from that valid_call_sizes(2,3)[OF v] have "out = res ! 0"
        by (auto split: if_splits)
      moreover from v have "caller_ptr (res ! 0)" by (simp add: valid_call_def)
      ultimately show ?thesis
        using caller_ptr_not_into[of "res ! 0" "Allocated_r_workspace j"] by simp
    qed
    have fr: "?run ?Sr =
        map_option (\<lambda>(c, s'). (c, s'\<lparr>rheap := (rheap s')(Allocated_r_workspace j := ws)\<rparr>))
          (?run ?S)"
      by (rule casadi_kernel_frame_r[OF ri allocated_r_workspace_other[OF jk] oi])
    show ?thesis
      unfolding ct fi fr cs
      by (cases "?run ?S") auto
  qed
  from a b e show ?thesis by blast
qed

theorem scratch_arenas_witness:
  "kernel_call ex_memory Cost ex_arg ex_res ex_state =
     Some \<lparr>c_arg = [Ptr Uxip_space 0, Ptr Uxip_space 40, Ptr Uxip_space 81],
           c_res = Result_space Cost, c_iw = INull, c_w = Ptr (Allocated_r_workspace Cost) 0,
           c_mem = VNull,
           c_state = ex_state\<lparr>rheap := (rheap ex_state)(Uxip_space :=
                        replicate 40 1 @ replicate 41 2 @ replicate 2673 3),
                      pheap := (pheap ex_state)(Cost := [Ptr (Caller 3) 0])\<rparr>\<rparr> \<and>
   sz_iw ex_memory Cost = 0 \<and> allocated_i_workspace ex_memory Cost = INull \<and>
   allocated_r_workspace ex_memory Cost \<noteq> Null \<and>
   valid_call ex_memory Cost ex_arg ex_res ex_state \<and> Grad \<noteq> Cost \<and>
   length (replicate 2 (5 :: casadi_real)) = length (rheap ex_state (Allocated_r_workspace Grad)) \<and>
   length ([] :: casadi_int list) = length (iheap ex_state Grad) \<and>
   dispatch ex_memory Cost (casadi_kernel ex_kernel) ex_arg ex_res
        (ex_state\<lparr>rheap := (rheap ex_state)(Allocated_r_workspace Grad := replicate 2 5),
                  iheap := (iheap ex_state)(Grad := [])\<rparr>) =
     Some (7, ex_state\<lparr>rheap := (rheap ex_state)
                 (Uxip_space := replicate 40 1 @ replicate 41 2 @ replicate 2673 3,
                  Allocated_r_workspace Cost := replicate 2 0,
                  Caller 3 := 2 # replicate 39 0),
               pheap := (pheap ex_state)(Cost := [Ptr (Caller 3) 0])\<rparr>
             \<lparr>rheap := (rheap (ex_state\<lparr>rheap := (rheap ex_state)
                 (Uxip_space := replicate 40 1 @ replicate 41 2 @ replicate 2673 3,
                  Allocated_r_workspace Cost := replicate 2 0,
                  Caller 3 := 2 # replicate 39 0),
               pheap := (pheap ex_state)(Cost := [Ptr (Caller 3) 0])\<rparr>))
                   (Allocated_r_workspace Grad := replicate 2 5),
              iheap := (iheap ex_state)(Grad := [])\<rparr>)"
proof -
  have a: "kernel_call ex_memory Cost ex_arg ex_res ex_state =
     Some \<lparr>c_arg = [Ptr Uxip_space 0, Ptr Uxip_space 40, Ptr Uxip_space 81],
           c_res = Result_space Cost, c_iw = INull, c_w = Ptr (Allocated_r_workspace Cost) 0,
           c_mem = VNull,
           c_state = ex_state\<lparr>rheap := (rheap ex_state)(Uxip_space :=
                        replicate 40 1 @ replicate 41 2 @ replicate 2673 3),
                      pheap := (pheap ex_state)(Cost := [Ptr (Caller 3) 0])\<rparr>\<rparr>"
    by (rule ex_kernel_call_full) simp
  have b: "sz_iw ex_memory Cost = 0" "allocated_i_workspace ex_memory Cost = INull"
      "allocated_r_workspace ex_memory Cost \<noteq> Null"
    by (simp_all add: ex_memory_def allocated_i_workspace_def allocated_r_workspace_def)
  have v: "valid_call ex_memory Cost ex_arg ex_res ex_state"
    by (rule ex_valid_full) simp
  have l: "length (replicate 2 (5 :: casadi_real))
             = length (rheap ex_state (Allocated_r_workspace Grad))"
      "length ([] :: casadi_int list) = length (iheap ex_state Grad)"
    by (simp_all add: ex_state_def init_state_def ex_memory_def)
  have run: "dispatch ex_memory Cost (casadi_kernel ex_kernel) ex_arg ex_res ex_state =
     Some (7, ex_state\<lparr>rheap := (rheap ex_state)
                 (Uxip_space := replicate 40 1 @ replicate 41 2 @ replicate 2673 3,
                  Allocated_r_workspace Cost := replicate 2 0,
                  Caller 3 := 2 # replicate 39 0),
               pheap := (pheap ex_state)(Cost := [Ptr (Caller 3) 0])\<rparr>)"
    by (rule ex_run_full) simp
  from scratch_arenas[of ex_memory Cost ex_arg ex_res ex_state _ _ Grad "replicate 2 5" "[]"
      ex_kernel] v l
  have "dispatch ex_memory Cost (casadi_kernel ex_kernel) ex_arg ex_res
        (ex_state\<lparr>rheap := (rheap ex_state)(Allocated_r_workspace Grad := replicate 2 5),
                  iheap := (iheap ex_state)(Grad := [])\<rparr>) =
      map_option
        (\<lambda>(c, s'). (c, s'\<lparr>rheap := (rheap s')(Allocated_r_workspace Grad := replicate 2 5),
                          iheap := (iheap s')(Grad := [])\<rparr>))
        (dispatch ex_memory Cost (casadi_kernel ex_kernel) ex_arg ex_res ex_state)"
    by blast
  then have c: "dispatch ex_memory Cost (casadi_kernel ex_kernel) ex_arg ex_res
        (ex_state\<lparr>rheap := (rheap ex_state)(Allocated_r_workspace Grad := replicate 2 5),
                  iheap := (iheap ex_state)(Grad := [])\<rparr>) =
     Some (7, ex_state\<lparr>rheap := (rheap ex_state)
                 (Uxip_space := replicate 40 1 @ replicate 41 2 @ replicate 2673 3,
                  Allocated_r_workspace Cost := replicate 2 0,
                  Caller 3 := 2 # replicate 39 0),
               pheap := (pheap ex_state)(Cost := [Ptr (Caller 3) 0])\<rparr>
             \<lparr>rheap := (rheap (ex_state\<lparr>rheap := (rheap ex_state)
                 (Uxip_space := replicate 40 1 @ replicate 41 2 @ replicate 2673 3,
                  Allocated_r_workspace Cost := replicate 2 0,
                  Caller 3 := 2 # replicate 39 0),
               pheap := (pheap ex_state)(Cost := [Ptr (Caller 3) 0])\<rparr>))
                   (Allocated_r_workspace Grad := replicate 2 5),
              iheap := (iheap ex_state)(Grad := [])\<rparr>)"
    unfolding run by simp
  from a b v l c show ?thesis by simp
qed

subsection \<open>What a valid call with a kernel of the spec does\<close>






subsection \<open>The same call twice\<close>






subsection \<open>The input vectors of the caller\<close>







end
